theory Spec2Isabelle
  imports Complex_Main
begin

section \<open>Calibration of the safety buffer\<close>

text \<open>
  \<^verbatim>\<open>calibrate_dynamic_buffer(num_trials, margin, min_buffer, max_buffer)\<close> issues
  \<^verbatim>\<open>num_trials\<close> HEAD requests.  Each trial samples \<^verbatim>\<open>time.time()\<close> before the
  request; a request that raises is logged and skipped (\<^verbatim>\<open>continue\<close>), a request
  that returns samples \<^verbatim>\<open>time.time()\<close> again and appends the difference.
  The outcome of the trials is the input of the model: one entry per trial, in
  order.  Python floats are read as exact rationals (seconds); the function only
  sorts, indexes, adds once and compares.
\<close>

datatype trial = Failed | Done rat rat

fun measure_delays :: "trial list \<Rightarrow> rat list" where
  "measure_delays [] = []"
| "measure_delays (Failed # ts) = measure_delays ts"
| "measure_delays (Done start stop # ts) = (stop - start) # measure_delays ts"

definition calibrate_dynamic_buffer :: "trial list \<Rightarrow> rat \<Rightarrow> rat \<Rightarrow> rat \<Rightarrow> rat" where
  "calibrate_dynamic_buffer trials margin min_buffer max_buffer =
     (let delays = measure_delays trials in
      if delays \<noteq> [] then
        let sorted_delays = sort delays;
            median_delay = sorted_delays ! (length sorted_delays div 2);
            calibrated_buffer = median_delay + margin
        in max min_buffer (min calibrated_buffer max_buffer)
      else 3 / 10)"

text \<open>
  A median of a non-empty sample: a member with at most half of the sample strictly
  below it and at most half strictly above it.
\<close>

definition is_median :: "rat \<Rightarrow> rat list \<Rightarrow> bool" where
  "is_median m ds =
     (m \<in> set ds \<and> 2 * length (filter (\<lambda>d. d < m) ds) \<le> length ds
               \<and> 2 * length (filter (\<lambda>d. m < d) ds) \<le> length ds)"


section \<open>Loading the CRN list\<close>

text \<open>
  \<^verbatim>\<open>load_crns\<close> reads \<^verbatim>\<open>crns.txt\<close> in text mode and iterates over its lines.
  The model takes the decoded text of the file.  A Python \<^verbatim>\<open>str\<close> is a sequence
  of code points; the model covers the code points below 256, one \<^typ>\<open>char\<close>
  each, and on that range \<^verbatim>\<open>str.isspace\<close>, \<^verbatim>\<open>str.isdigit\<close> and
  \<^verbatim>\<open>str.isdecimal\<close> are the following predicates (\<^verbatim>\<open>isdigit\<close> accepts the
  superscript digits U+00B2, U+00B3 and U+00B9, which \<^verbatim>\<open>isdecimal\<close> rejects).
\<close>

definition isspace :: "char \<Rightarrow> bool" where
  "isspace c = (let n = (of_char c :: nat) in
                  (9 \<le> n \<and> n \<le> 13) \<or> (28 \<le> n \<and> n \<le> 32) \<or> n = 133 \<or> n = 160)"

definition isdigit :: "char \<Rightarrow> bool" where
  "isdigit c = (let n = (of_char c :: nat) in
                  (48 \<le> n \<and> n \<le> 57) \<or> n = 178 \<or> n = 179 \<or> n = 185)"

definition isdecimal :: "char \<Rightarrow> bool" where
  "isdecimal c = (let n = (of_char c :: nat) in 48 \<le> n \<and> n \<le> 57)"

text \<open>\<^verbatim>\<open>s.strip()\<close>, \<^verbatim>\<open>s.startswith('#')\<close> and \<^verbatim>\<open>s.isdigit()\<close> (false on the empty string).\<close>

definition strip :: "string \<Rightarrow> string" where
  "strip s = rev (dropWhile isspace (rev (dropWhile isspace s)))"

definition startswith_hash :: "string \<Rightarrow> bool" where
  "startswith_hash s = (case s of [] \<Rightarrow> False | c # _ \<Rightarrow> c = CHR ''#'')"

definition str_isdigit :: "string \<Rightarrow> bool" where
  "str_isdigit s = (s \<noteq> [] \<and> list_all isdigit s)"

text \<open>
  Text mode with the default \<^verbatim>\<open>newline=None\<close> turns \<^verbatim>\<open>\r\n\<close> and a lone
  \<^verbatim>\<open>\r\<close> into \<^verbatim>\<open>\n\<close>; iterating the file yields the lines, each with its
  terminating \<^verbatim>\<open>\n\<close> (the last line may have none).
\<close>

fun universal_newlines :: "string \<Rightarrow> string" where
  "universal_newlines [] = []"
| "universal_newlines [c] = (if c = CHR 0x0D then [CHR 0x0A] else [c])"
| "universal_newlines (c # d # cs) =
     (if c = CHR 0x0D then
        (if d = CHR 0x0A then CHR 0x0A # universal_newlines cs
         else CHR 0x0A # universal_newlines (d # cs))
      else c # universal_newlines (d # cs))"

fun split_lines :: "string \<Rightarrow> string \<Rightarrow> string list" where
  "split_lines cur [] = (if cur = [] then [] else [cur])"
| "split_lines cur (c # cs) =
     (if c = CHR 0x0A then (cur @ [c]) # split_lines [] cs else split_lines (cur @ [c]) cs)"

definition file_lines :: "string \<Rightarrow> string list" where
  "file_lines content = split_lines [] (universal_newlines content)"

datatype value_error =
    Crns_empty                  \<comment> \<open>"crns.txt is empty. Please add your CRNs."\<close>
  | Invalid_crns "string list"  \<comment> \<open>"Invalid CRNs found: ... Each CRN must be 5 digits."\<close>

definition load_crns :: "string \<Rightarrow> value_error + string list" where
  "load_crns content =
     (let crns = [strip line. line \<leftarrow> file_lines content,
                              strip line \<noteq> [] \<and> \<not> startswith_hash line]
      in if crns = [] then Inl Crns_empty
         else
           let invalid_crns = [crn \<leftarrow> crns. \<not> (length crn = 5 \<and> str_isdigit crn)]
           in if invalid_crns \<noteq> [] then Inl (Invalid_crns invalid_crns)
              else Inr crns)"

text \<open>
  The entries of the file, said directly: the lines that are not blank and are no comment,
  each stripped.  A line is blank when it holds white space only, and a comment when its
  first character is \<^verbatim>\<open>#\<close>.
\<close>

definition entries :: "string \<Rightarrow> string list" where
  "entries content =
     map strip (filter (\<lambda>line. \<not> list_all isspace line \<and> \<not> startswith_hash line)
                  (file_lines content))"



section \<open>The clock, the trace of effects and the environment\<close>

text \<open>
  Instants and durations are integers counting microseconds, the resolution of
  \<^verbatim>\<open>datetime\<close>: a naive \<^verbatim>\<open>datetime\<close> is the number of microseconds of its
  wall-clock reading since midnight of 1 January 1970, an aware one the UTC instant, and
  \<^verbatim>\<open>total_seconds()\<close> of a difference is the difference itself (the float it
  returns is only compared with constants and handed to \<^verbatim>\<open>time.sleep\<close> and
  \<^verbatim>\<open>timedelta\<close>).  For differences below \<open>2^33\<close> seconds, about 272 years, the
  float and the way back through \<^verbatim>\<open>timedelta(seconds=...)\<close> are exact to the
  microsecond; beyond that Python's values can be some microseconds off.  Writing to the
  log and to the status line is taken not to raise.

  The world holds the UTC clock, the time the coming operations will take, and the trace
  of effects, each stamped with the clock at which it happened.  Every operation that
  looks at the outside (reading the clock, sleeping, a request, a browser step) first
  lets the next amount of \<open>ticks\<close> pass; a sleep lasts its duration and then that
  much longer.  So the clock never runs backwards and a sleep is never cut short; how
  long anything takes beyond that is up to the environment.
\<close>

abbreviation seconds :: "int \<Rightarrow> int" where
  "seconds n \<equiv> n * 1000000"

datatype level = INFO | WARNING | ERROR

datatype step =
  Login | SelectTerm | EnterPinOnly | SubmitPinForm | LogSubmissionTimes
  | EnterCrns | SubmitRegistration

datatype exn =
    RequestException      \<comment> \<open>raised by \<^verbatim>\<open>requests.head\<close>\<close>
  | StrptimeError         \<comment> \<open>the \<^verbatim>\<open>ValueError\<close> of \<^verbatim>\<open>datetime.strptime\<close>\<close>
  | DriverError           \<comment> \<open>re-raised by \<^verbatim>\<open>_create_driver\<close>\<close>
  | OverflowError         \<comment> \<open>a date out of range, a sleep too long\<close>
  | Exception string      \<comment> \<open>\<^verbatim>\<open>raise Exception("...")\<close>\<close>

text \<open>A formatted message: the text of the f-string, and the value it interpolates.\<close>

datatype msg = Plain string | WithNum string int | WithExn string exn

datatype event =
    Sleep int                 \<comment> \<open>\<^verbatim>\<open>time.sleep(d)\<close>\<close>
  | Status msg                \<comment> \<open>\<^verbatim>\<open>_update_status_safe\<close>, \<^verbatim>\<open>status_var.set\<close>\<close>
  | Logging level msg         \<comment> \<open>\<^verbatim>\<open>logging.info\<close>, \<^verbatim>\<open>.warning\<close>, \<^verbatim>\<open>.error\<close>\<close>
  | Head                      \<comment> \<open>\<^verbatim>\<open>requests.head(BEREA_TERM_URL)\<close>\<close>
  | CreateDriver              \<comment> \<open>\<^verbatim>\<open>webdriver.Chrome(...)\<close> in \<^verbatim>\<open>_create_driver\<close>\<close>
  | Call step                 \<comment> \<open>a step of the registration pipeline\<close>
  | ShowInfo string msg       \<comment> \<open>\<^verbatim>\<open>messagebox.showinfo(title, message)\<close>\<close>
  | ShowError string msg      \<comment> \<open>\<^verbatim>\<open>messagebox.showerror(title, message)\<close>\<close>
  | ReenableButtons           \<comment> \<open>\<^verbatim>\<open>_reenable_buttons_safe\<close>\<close>
  | DriverQuit                \<comment> \<open>\<^verbatim>\<open>self.driver.quit()\<close>\<close>

record world =
  clock :: int
  ticks :: "nat list"
  trace :: "(int \<times> event) list"

text \<open>What becomes of a HEAD request.  \<^verbatim>\<open>requests.head\<close> is called without a
  \<^verbatim>\<open>timeout\<close>, so it may never return (the server accepts the connection and stays
  silent); otherwise it raises, or returns a response with its \<^verbatim>\<open>Date\<close> header
  (\<^verbatim>\<open>headers.get("Date")\<close> is \<^verbatim>\<open>None\<close> when there is none).\<close>

datatype response = NoReply | Raises | Response "string option"

text \<open>How a piece of the program ends: it runs to its end, it raises, or it never
  returns.\<close>

datatype ending = Completes | Throws exn | Blocks

text \<open>
  \<^verbatim>\<open>time.sleep\<close> raises \<^verbatim>\<open>OverflowError\<close> beyond a longest sleep, which depends
  on the interpreter: \<^verbatim>\<open>ULONG_MAX\<close> milliseconds (CPython before 3.11 on Windows),
  or what fits 63 bits of nanoseconds.  Both are above 49 days, so the fixed sleeps of the
  program (half a second to ten minutes) are below it.
\<close>

datatype sleep_impl = Millis32 | Nanos64

definition sleep_max :: "sleep_impl \<Rightarrow> int" where
  "sleep_max impl = (case impl of Millis32 \<Rightarrow> 4294967295000 | Nanos64 \<Rightarrow> 9223372036854775)"

text \<open>The range of \<^verbatim>\<open>datetime\<close>: 0001-01-01 00:00:00 to 9999-12-31 23:59:59.999999.
  Arithmetic that leaves it raises \<^verbatim>\<open>OverflowError\<close>.\<close>

definition DATETIME_MIN :: int where
  "DATETIME_MIN = seconds (- 62135596800)"

definition DATETIME_MAX :: int where
  "DATETIME_MAX = seconds 253402300800 - 1"

text \<open>How \<^verbatim>\<open>_create_driver\<close> ends: normally, or with an exception raised before
  (\<open>False\<close>) or after (\<open>True\<close>) \<^verbatim>\<open>self.driver\<close> was assigned.\<close>

datatype driver_outcome = DriverReady | DriverFailed bool

text \<open>
  The environment of one run.  \<open>sys_utcoff\<close> is the UTC offset of the machine's own
  time zone (\<^verbatim>\<open>datetime.now()\<close> is the UTC clock plus it), \<open>ny_utcoff\<close> the offset
  \<^verbatim>\<open>pytz\<close> gives the target in \<^verbatim>\<open>America/New_York\<close>.  \<open>strptime\<close> parses the
  header with the format \<^verbatim>\<open>"%a, %d %b %Y %H:%M:%S GMT"\<close> into a UTC instant and is
  \<open>None\<close> where Python raises \<^verbatim>\<open>ValueError\<close>.  \<open>step_ok\<close> tells whether a
  pipeline step returns \<^verbatim>\<open>True\<close> (each step catches its own exceptions and returns
  \<^verbatim>\<open>False\<close> or \<^verbatim>\<open>None\<close> on failure; the steps are taken to return, also
  \<^verbatim>\<open>log_submission_times\<close>, which sends a request of its own).  \<open>sleep_impl\<close> is the interpreter's
  way of sleeping.  The readings of the clock and the target are taken to be datetimes
  of the present; what the server reports is whatever its header says.
\<close>

record env =
  sys_utcoff :: int
  ny_utcoff :: int
  head_result :: response
  strptime :: "string \<Rightarrow> int option"
  driver_result :: driver_outcome
  step_ok :: "step \<Rightarrow> bool"
  sleep_impl :: sleep_impl

definition tick :: "world \<Rightarrow> world" where
  "tick w = (case ticks w of [] \<Rightarrow> w
             | t # ts \<Rightarrow> w\<lparr>clock := clock w + int t, ticks := ts\<rparr>)"

definition emit :: "event \<Rightarrow> world \<Rightarrow> world" where
  "emit ev w = w\<lparr>trace := trace w @ [(clock w, ev)]\<rparr>"

definition datetime_now :: "env \<Rightarrow> world \<Rightarrow> int \<times> world" where
  "datetime_now e w = (let w' = tick w in (clock w' + sys_utcoff e, w'))"

definition datetime_now_utc :: "world \<Rightarrow> int \<times> world" where
  "datetime_now_utc w = (let w' = tick w in (clock w', w'))"

definition time_sleep :: "int \<Rightarrow> world \<Rightarrow> world" where
  "time_sleep d w = tick ((emit (Sleep d) w)\<lparr>clock := clock w + d\<rparr>)"

definition update_status :: "msg \<Rightarrow> world \<Rightarrow> world" where
  "update_status m w = emit (Status m) w"

definition logging :: "level \<Rightarrow> msg \<Rightarrow> world \<Rightarrow> world" where
  "logging l m w = emit (Logging l m) w"

text \<open>A sleep of a computed length: \<^verbatim>\<open>time.sleep(d)\<close> where \<open>d\<close> may be too
  long.\<close>

definition checked_sleep :: "env \<Rightarrow> int \<Rightarrow> world \<Rightarrow> ending \<times> world" where
  "checked_sleep e d w =
     (if d > sleep_max (sleep_impl e) then (Throws OverflowError, w)
      else (Completes, time_sleep d w))"

text \<open>The request: sent, and then answered after some time, or never.\<close>

definition requests_head :: "env \<Rightarrow> world \<Rightarrow> response \<times> world" where
  "requests_head e w =
     (case head_result e of
        NoReply \<Rightarrow> (NoReply, emit Head w)
      | r \<Rightarrow> (r, tick (emit Head w)))"

definition call :: "step \<Rightarrow> world \<Rightarrow> world" where
  "call s w = tick (emit (Call s) w)"


section \<open>The coarse wait\<close>

text \<open>
  Lines 428 to 446 of \<^verbatim>\<open>run_registration\<close>.  The variable \<^verbatim>\<open>now\<close> always holds
  the latest reading of \<^verbatim>\<open>datetime.now()\<close>, and nothing that takes time happens
  between that reading and the test of the loop, so \<^verbatim>\<open>now\<close> is the clock of the
  world plus the machine's UTC offset.  One iteration is the body of the loop up to
  and with the new reading.
\<close>

definition FINAL_POLL_BUFFER_SECONDS :: int where
  "FINAL_POLL_BUFFER_SECONDS = seconds 25"

definition coarse_iteration :: "env \<Rightarrow> int \<Rightarrow> world \<Rightarrow> world" where
  "coarse_iteration e target_minus_buffer w =
     (let now = clock w + sys_utcoff e;
          remaining = target_minus_buffer - now;
          (sleep_duration, w1) =
            (if remaining > seconds 30 then
               (seconds 30, update_status (WithNum ''Waiting... (T-{remaining:.0f}s)'' remaining) w)
             else if remaining > seconds 5 then
               (seconds 5, update_status (WithNum ''Waiting... (T-{remaining:.0f}s)'' remaining) w)
             else (500000, w));
          w2 = time_sleep sleep_duration w1
      in snd (datetime_now e w2))"

lemma clock_tick: "clock w \<le> clock (tick w)"
  by (simp add: tick_def split: list.split)

lemma clock_emit: "clock (emit ev w) = clock w"
  by (simp add: emit_def)

lemma clock_time_sleep: "clock w + d \<le> clock (time_sleep d w)"
proof -
  have "clock ((emit (Sleep d) w)\<lparr>clock := clock w + d\<rparr>) = clock w + d" by simp
  then show ?thesis unfolding time_sleep_def using clock_tick by metis
qed

lemma clock_coarse_iteration: "clock w + 500000 \<le> clock (coarse_iteration e tmb w)"
proof -
  have a: "clock w + 500000 \<le> clock (time_sleep d (update_status m w))" if "500000 \<le> d" for d m
    using clock_time_sleep [of "update_status m w" d] that by (simp add: update_status_def clock_emit)
  have b: "clock w + 500000 \<le> clock (time_sleep d w)" if "500000 \<le> d" for d
    using clock_time_sleep [of w d] that by simp
  have c: "clock v \<le> clock (snd (datetime_now e v))" for v
    by (simp add: datetime_now_def Let_def clock_tick)
  show ?thesis
    unfolding coarse_iteration_def Let_def
    by (auto simp: split_def intro: order_trans [OF a c] order_trans [OF b c])
qed

text \<open>The loop itself.  Every iteration moves the clock on by half a second at least,
  so the loop ends.\<close>

function coarse_wait :: "env \<Rightarrow> int \<Rightarrow> world \<Rightarrow> world" where
  "coarse_wait e target_minus_buffer w =
     (if clock w + sys_utcoff e < target_minus_buffer
      then coarse_wait e target_minus_buffer (coarse_iteration e target_minus_buffer w)
      else w)"
  by pat_completeness auto
termination
proof (relation "measure (\<lambda>(e, tmb, w). nat (tmb - (clock w + sys_utcoff e)))")
  show "wf (measure (\<lambda>(e, tmb, w). nat (tmb - (clock w + sys_utcoff e))))" by simp
next
  fix e :: env and target_minus_buffer :: int and w :: world
  assume "clock w + sys_utcoff e < target_minus_buffer"
  then show "((e, target_minus_buffer, coarse_iteration e target_minus_buffer w),
              (e, target_minus_buffer, w))
        \<in> measure (\<lambda>(e, tmb, w). nat (tmb - (clock w + sys_utcoff e)))"
    using clock_coarse_iteration [of w e target_minus_buffer] by simp
qed

declare coarse_wait.simps [simp del]


section \<open>The final synchronisation and the submission\<close>

text \<open>
  Lines 452 to 482, the \<^verbatim>\<open>try\<close> block: one HEAD request, the offset, the final
  sleep.  The result says how the block ended, together with the world as the block left
  it.  Line 472 subtracts the offset from the target and raises when the result is no
  datetime; line 480 sleeps and raises when the sleep is too long.
\<close>

definition final_sync_try :: "env \<Rightarrow> int \<Rightarrow> world \<Rightarrow> ending \<times> world" where
  "final_sync_try e target_time w =
     (case requests_head e w of
        (NoReply, w1) \<Rightarrow> (Blocks, w1)
      | (Raises, w1) \<Rightarrow> (Throws RequestException, w1)
      | (Response None, w1) \<Rightarrow>
          (Throws (Exception ''No Date header found in server response.''), w1)
      | (Response (Some date_header), w1) \<Rightarrow>
          if date_header = [] then
            (Throws (Exception ''No Date header found in server response.''), w1)
          else
            (case strptime e date_header of
               None \<Rightarrow> (Throws StrptimeError, w1)
             | Some server_time_utc \<Rightarrow>
                 let (local_utc_now, w2) = datetime_now_utc w1;
                     offset_seconds = server_time_utc - local_utc_now;
                     w3 = logging INFO
                            (WithNum ''Server time offset: {offset_seconds:.3f} seconds.''
                               offset_seconds) w2;
                     target_time_utc = target_time - ny_utcoff e;
                     target_local_time_as_utc = target_time_utc - offset_seconds
                 in if target_local_time_as_utc < DATETIME_MIN
                       \<or> DATETIME_MAX < target_local_time_as_utc then
                      (Throws OverflowError, w3)
                    else
                      let (utc_now, w4) = datetime_now_utc w3;
                          remaining_sleep_seconds = target_local_time_as_utc - utc_now
                      in if remaining_sleep_seconds > 0 then
                           let w5 = logging INFO
                                      (WithNum ''Calculated final sleep: {remaining_sleep_seconds:.4f} seconds.''
                                         remaining_sleep_seconds) w4;
                               w6 = update_status
                                      (WithNum ''Final sleep: {remaining_sleep_seconds:.3f}s''
                                         remaining_sleep_seconds) w5
                           in checked_sleep e remaining_sleep_seconds w6
                         else
                           (Completes, logging WARNING
                                    (WithNum ''Offset calculation resulted in zero/negative sleep ({remaining_sleep_seconds:.4f}s). Submitting immediately.''
                                       remaining_sleep_seconds) w4)))"

text \<open>Lines 452 to 489: the \<^verbatim>\<open>try\<close> block with its \<^verbatim>\<open>except Exception\<close> handler.
  The handler catches whatever the block raised; what the handler's own sleep raises
  leaves the handler.\<close>

definition final_sync :: "env \<Rightarrow> int \<Rightarrow> world \<Rightarrow> ending \<times> world" where
  "final_sync e target_time w =
     (case final_sync_try e target_time w of
        (Completes, w') \<Rightarrow> (Completes, w')
      | (Blocks, w') \<Rightarrow> (Blocks, w')
      | (Throws ex, w') \<Rightarrow>
          let w1 = logging ERROR
                     (WithExn ''Final server time sync failed: {e}. Proceeding with local time.'' ex) w';
              (now, w2) = datetime_now e w1;
              remaining_local_sleep = target_time - now
          in if remaining_local_sleep > 0 then checked_sleep e remaining_local_sleep w2
             else (Completes, w2))"

text \<open>Lines 424 to 450: from the branch for a target time up to the final
  synchronisation.\<close>

definition before_final_sync :: "env \<Rightarrow> int \<Rightarrow> world \<Rightarrow> world" where
  "before_final_sync e target_time w =
     (let w1 = update_status (WithNum ''Waiting for {target_time}...'' target_time) w;
          w2 = logging INFO (WithNum ''Target local time set for: {target_time}'' target_time) w1;
          target_minus_buffer = target_time - FINAL_POLL_BUFFER_SECONDS;
          w3 = snd (datetime_now e w2);
          w4 = coarse_wait e target_minus_buffer w3;
          w5 = update_status (Plain ''Final sync (T-25.0s)...'') w4
      in logging INFO (Plain ''Reached T-25.0s. Polling server for final time sync.'') w5)"

text \<open>Lines 424 to 493: the branch of \<^verbatim>\<open>run_registration\<close> for a target time.\<close>

definition timed_submission :: "env \<Rightarrow> int \<Rightarrow> world \<Rightarrow> ending \<times> world" where
  "timed_submission e target_time w =
     (case final_sync e target_time (before_final_sync e target_time w) of
        (Completes, w7) \<Rightarrow>
          let w8 = update_status (Plain ''Submitting PIN...'') w7;
              w9 = call SubmitPinForm w8
          in (Completes, call LogSubmissionTimes w9)
      | (ended, w7) \<Rightarrow> (ended, w7))"


section \<open>The registration thread\<close>

text \<open>\<^verbatim>\<open>_create_driver\<close>: it logs, shows a message box and re-raises when the browser
  cannot be set up.\<close>

definition create_driver :: "env \<Rightarrow> world \<Rightarrow> exn option \<times> world" where
  "create_driver e w =
     (let w1 = tick (emit CreateDriver (logging INFO (Plain ''Setting up Chrome driver...'') w)) in
      case driver_result e of
        DriverReady \<Rightarrow> (None, logging INFO (Plain ''Driver setup complete.'') w1)
      | DriverFailed assigned \<Rightarrow>
          let w2 = logging ERROR (WithExn ''Failed to create webdriver: {e}'' DriverError) w1;
              w3 = logging ERROR (Plain ''Please ensure Google Chrome is installed and up to date.'') w2
          in (Some DriverError,
              emit (ShowError ''Driver Error'' (WithExn ''Failed to create webdriver: {e}'' DriverError)) w3))"

definition has_driver :: "driver_outcome \<Rightarrow> bool" where
  "has_driver r = (case r of DriverReady \<Rightarrow> True | DriverFailed assigned \<Rightarrow> assigned)"

text \<open>Lines 405 to 512: the \<^verbatim>\<open>try\<close> block of \<^verbatim>\<open>run_registration\<close>.  The result
  says how it ended.\<close>

definition registration_body :: "env \<Rightarrow> int option \<Rightarrow> world \<Rightarrow> ending \<times> world" where
  "registration_body e target_time w =
     (case create_driver e w of
        (Some ex, w0) \<Rightarrow> (Throws ex, w0)
      | (None, w0) \<Rightarrow>
          let w1 = call Login (update_status (Plain ''Logging in...'') w0) in
          if \<not> step_ok e Login then
            (Throws (Exception ''Login failed. Check credentials in config.txt.''), w1)
          else
          let w2 = call SelectTerm (update_status (Plain ''Selecting term...'') w1) in
          if \<not> step_ok e SelectTerm then
            (Throws (Exception ''Term selection failed. Check TERM_ID and TERM_TEXT in config.txt.''), w2)
          else
          let w3 = call EnterPinOnly (update_status (Plain ''Entering PIN...'') w2) in
          if \<not> step_ok e EnterPinOnly then
            (Throws (Exception ''Entering PIN failed.''), w3)
          else
          (case (case target_time of
                   Some t \<Rightarrow> timed_submission e t w3
                 | None \<Rightarrow> (Completes,
                             call SubmitPinForm (update_status (Plain ''Submitting PIN...'') w3))) of
             (Completes, w4) \<Rightarrow>
               let w5 = call EnterCrns (update_status (Plain ''Entering CRNs...'') w4) in
               if \<not> step_ok e EnterCrns then
                 (Throws (Exception ''Failed to enter CRNs.''), w5)
               else
               let w6 = call SubmitRegistration
                          (update_status (Plain ''Submitting registration...'') w5);
                   success = step_ok e SubmitRegistration in
               if success then
                 (Completes, emit (ShowInfo ''Success'' (Plain ''Registration completed successfully!''))
                          (update_status (Plain ''Registration completed successfully!'') w6))
               else
                 (Completes, emit (ShowError ''Error'' (Plain ''Registration failed or had errors. Check logs.''))
                          (update_status (Plain ''Registration failed or had errors. Check logs.'') w6))
           | (ended, w4) \<Rightarrow> (ended, w4)))"

text \<open>Lines 404 to 525: the whole thread, with the \<^verbatim>\<open>except\<close> and \<^verbatim>\<open>finally\<close>
  blocks.  The result is the world the thread leaves behind; a thread that is blocked in
  the request leaves the world in which it got stuck.\<close>

definition run_registration :: "env \<Rightarrow> int option \<Rightarrow> world \<Rightarrow> world" where
  "run_registration e target_time w =
     (case registration_body e target_time w of
        (Blocks, w1) \<Rightarrow> w1
      | (ended, w1) \<Rightarrow>
          let w2 = (case ended of
                      Throws ex \<Rightarrow>
                        emit (ShowError ''Error'' (WithExn ''Error: {str(e)}'' ex))
                          (update_status (WithExn ''Error: {str(e)}'' ex)
                             (logging ERROR (WithExn ''Registration thread error: {e}'' ex) w1))
                    | _ \<Rightarrow> w1);
              w3 = emit ReenableButtons w2
          in if has_driver (driver_result e) then
               emit DriverQuit
                 (time_sleep (seconds 600)
                    (logging INFO
                       (Plain ''Registration thread finished. Waiting 30 seconds before closing browser...'') w3))
             else w3)"


section \<open>Starting a run from the scheduler window\<close>

text \<open>
  \<^verbatim>\<open>validate_time\<close> reads the three spin boxes with \<^verbatim>\<open>int(...)\<close>; the model takes
  what \<^verbatim>\<open>int\<close> makes of each (\<open>None\<close> where it raises \<^verbatim>\<open>ValueError\<close>).
\<close>

definition validate_time ::
  "int option \<Rightarrow> int option \<Rightarrow> int option \<Rightarrow> world \<Rightarrow> (int \<times> int \<times> int) option \<times> world" where
  "validate_time hour_var minute_var second_var w =
     (case (hour_var, minute_var, second_var) of
        (Some hour, Some minute, Some second) \<Rightarrow>
          if \<not> (0 \<le> hour \<and> hour \<le> 23 \<and> 0 \<le> minute \<and> minute \<le> 59 \<and> 0 \<le> second \<and> second \<le> 59)
          then (None, emit (ShowError ''Error''
                              (Plain ''Please enter valid time values (H: 0-23, M/S: 0-59)'')) w)
          else (Some (hour, minute, second), w)
      | _ \<Rightarrow> (None, emit (ShowError ''Error''
                            (Plain ''Please enter valid time values (H: 0-23, M/S: 0-59)'')) w))"

text \<open>\<^verbatim>\<open>dt.replace(hour=..., minute=..., second=..., microsecond=0)\<close> keeps the date.\<close>

definition replace_time :: "int \<Rightarrow> int \<Rightarrow> int \<Rightarrow> int \<Rightarrow> int" where
  "replace_time dt hour minute second =
     (dt div seconds 86400) * seconds 86400 + seconds (hour * 3600 + minute * 60 + second)"

text \<open>
  What a press of a start button leads to: nothing (the handler returns), or a call of
  \<^verbatim>\<open>schedule_registration\<close> with a target time or with \<^verbatim>\<open>None\<close>.
\<close>

datatype start_result = Returned | Scheduled "int option"

definition start_at_time ::
  "env \<Rightarrow> int option \<Rightarrow> int option \<Rightarrow> int option \<Rightarrow> world \<Rightarrow> start_result \<times> world" where
  "start_at_time e hour_var minute_var second_var w =
     (case validate_time hour_var minute_var second_var w of
        (None, w0) \<Rightarrow> (Returned, w0)
      | (Some (hour, minute, second), w0) \<Rightarrow>
          let (now1, w1) = datetime_now e w0;
              target_time = replace_time now1 hour minute second;
              (now2, w2) = datetime_now e w1
          in if target_time < now2 then
               (Returned, emit (ShowError ''Error'' (Plain ''Please set a future time'')) w2)
             else
               (Scheduled (Some target_time),
                update_status (WithNum ''Waiting for {target_time}'' target_time) w2))"

definition start_immediately :: "world \<Rightarrow> start_result \<times> world" where
  "start_immediately w =
     (Scheduled None, update_status (Plain ''Starting registration immediately...'') w)"


section \<open>The window and its threads\<close>

text \<open>
  The state that the window and the registration threads share: whether the two start
  buttons are enabled, \<^verbatim>\<open>self.driver\<close>, the browser sessions that are open, the
  callbacks posted with \<^verbatim>\<open>after(0, reenable)\<close> that the main loop has not run yet,
  and where each thread started so far stands.  A disabled button does not call its
  command.
\<close>

datatype phase =
    Starting      \<comment> \<open>started, \<^verbatim>\<open>_create_driver\<close> not yet done\<close>
  | InPipeline    \<comment> \<open>inside the \<^verbatim>\<open>try\<close> block, after \<^verbatim>\<open>_create_driver\<close>\<close>
  | Cleanup       \<comment> \<open>inside \<^verbatim>\<open>finally\<close>, in \<^verbatim>\<open>time.sleep(600)\<close>\<close>
  | Finished

record gui =
  buttons_enabled :: bool
  driver :: "nat option"
  sessions :: "nat list"
  next_session :: nat
  after_queue :: nat
  threads :: "phase list"

datatype action =
    ClickStartNow              \<comment> \<open>"Start Immediately" is pressed\<close>
  | ClickStartAt bool          \<comment> \<open>"Start at Set Time" is pressed; whether \<^verbatim>\<open>start_at_time\<close>
                                   gets as far as \<^verbatim>\<open>schedule_registration\<close>\<close>
  | RunCallback                \<comment> \<open>the main loop runs the next posted callback\<close>
  | DoCreateDriver nat driver_outcome  \<comment> \<open>thread \<open>i\<close> runs \<^verbatim>\<open>_create_driver\<close>\<close>
  | DoLeaveTry nat             \<comment> \<open>thread \<open>i\<close> leaves the \<^verbatim>\<open>try\<close> block and runs
                                   \<^verbatim>\<open>finally\<close> up to \<^verbatim>\<open>time.sleep(600)\<close>\<close>
  | DoWake nat                 \<comment> \<open>thread \<open>i\<close> returns from \<^verbatim>\<open>time.sleep(600)\<close>\<close>

definition schedule_registration :: "gui \<Rightarrow> gui" where
  "schedule_registration g = g\<lparr>buttons_enabled := False, threads := threads g @ [Starting]\<rparr>"

text \<open>The \<^verbatim>\<open>finally\<close> block up to the sleep: post the callback, then test
  \<^verbatim>\<open>self.driver\<close>.\<close>

definition enter_finally :: "nat \<Rightarrow> gui \<Rightarrow> gui" where
  "enter_finally i g =
     g\<lparr>after_queue := after_queue g + 1,
       threads := (threads g)[i := (if driver g \<noteq> None then Cleanup else Finished)]\<rparr>"

definition perform :: "action \<Rightarrow> gui \<Rightarrow> gui" where
  "perform a g =
     (case a of
        ClickStartNow \<Rightarrow> if buttons_enabled g then schedule_registration g else g
      | ClickStartAt accepted \<Rightarrow>
          if buttons_enabled g \<and> accepted then schedule_registration g else g
      | RunCallback \<Rightarrow>
          if after_queue g > 0 then g\<lparr>buttons_enabled := True, after_queue := after_queue g - 1\<rparr>
          else g
      | DoCreateDriver i r \<Rightarrow>
          if i < length (threads g) \<and> threads g ! i = Starting then
            (case r of
               DriverReady \<Rightarrow>
                 g\<lparr>driver := Some (next_session g),
                   sessions := sessions g @ [next_session g],
                   next_session := next_session g + 1,
                   threads := (threads g)[i := InPipeline]\<rparr>
             | DriverFailed assigned \<Rightarrow>
                 enter_finally i
                   (if assigned then
                      g\<lparr>driver := Some (next_session g),
                        sessions := sessions g @ [next_session g],
                        next_session := next_session g + 1\<rparr>
                    else g))
          else g
      | DoLeaveTry i \<Rightarrow>
          if i < length (threads g) \<and> threads g ! i = InPipeline then enter_finally i g else g
      | DoWake i \<Rightarrow>
          if i < length (threads g) \<and> threads g ! i = Cleanup then
            (case driver g of
               Some d \<Rightarrow> g\<lparr>driver := None, sessions := removeAll d (sessions g),
                           threads := (threads g)[i := Finished]\<rparr>
             | None \<Rightarrow> g\<lparr>threads := (threads g)[i := Finished]\<rparr>)
          else g)"

definition run_actions :: "action list \<Rightarrow> gui \<Rightarrow> gui" where
  "run_actions acts g = fold perform acts g"

definition initial_gui :: gui where
  "initial_gui = \<lparr>buttons_enabled = True, driver = None, sessions = [], next_session = 0,
                   after_queue = 0, threads = []\<rparr>"

text \<open>The threads that are inside the \<^verbatim>\<open>try\<close> block, and those that have not
  ended.\<close>

definition in_try :: "gui \<Rightarrow> nat" where
  "in_try g = length (filter (\<lambda>p. p = Starting \<or> p = InPipeline) (threads g))"

definition alive :: "gui \<Rightarrow> nat" where
  "alive g = length (filter (\<lambda>p. p \<noteq> Finished) (threads g))"



text \<open>The guard: no thread inside its \<^verbatim>\<open>try\<close> block or one, with no callback
  pending then, and the buttons disabled unless there is neither.\<close>

definition guarded :: "gui \<Rightarrow> bool" where
  "guarded g = (in_try g + after_queue g \<le> 1
                \<and> (buttons_enabled g \<longrightarrow> in_try g + after_queue g = 0))"


section \<open>Reading a trace\<close>

text \<open>The durations slept, in order, and the instants at which a pipeline step was
  called.\<close>

definition sleeps :: "(int \<times> event) list \<Rightarrow> int list" where
  "sleeps tr = concat (map (\<lambda>(t, ev). case ev of Sleep d \<Rightarrow> [d] | _ \<Rightarrow> []) tr)"

definition calls :: "step \<Rightarrow> (int \<times> event) list \<Rightarrow> int list" where
  "calls s tr = [t. (t, ev) \<leftarrow> tr, ev = Call s]"


text \<open>The pipeline steps called, in order, and the message boxes shown.\<close>

definition called :: "(int \<times> event) list \<Rightarrow> step list" where
  "called tr = concat (map (\<lambda>(t, ev). case ev of Call s \<Rightarrow> [s] | _ \<Rightarrow> []) tr)"

definition shown :: "(int \<times> event) list \<Rightarrow> event list" where
  "shown tr = concat (map (\<lambda>(t, ev). case ev of ShowInfo title m \<Rightarrow> [ev]
                                          | ShowError title m \<Rightarrow> [ev] | _ \<Rightarrow> []) tr)"

text \<open>The time the next operation will take.\<close>

definition next_tick :: "nat list \<Rightarrow> int" where
  "next_tick ts = (case ts of [] \<Rightarrow> 0 | t # _ \<Rightarrow> int t)"


section \<open>An example environment\<close>

text \<open>A machine on UTC whose requests fail and whose browser steps succeed, and a world
  at clock 0 in which the first sleep overruns by 100 microseconds, the reading after it
  takes 200, and the second sleep overruns by four seconds.\<close>

definition example_env :: env where
  "example_env = \<lparr>sys_utcoff = 0, ny_utcoff = 0, head_result = Raises, strptime = (\<lambda>_. None),
                   driver_result = DriverReady, step_ok = (\<lambda>_. True), sleep_impl = Nanos64\<rparr>"

definition example_world :: world where
  "example_world = \<lparr>clock = 0, ticks = [100, 200, 4000000, 0, 300000, 0], trace = []\<rparr>"

text \<open>A machine five hours behind UTC, as New York is in winter, at 05:00:40 UTC; the
  server's clock reads 05:00:42; the request takes 0.12 seconds.\<close>

definition example_env_dated :: env where
  "example_env_dated =
     \<lparr>sys_utcoff = seconds (- 18000), ny_utcoff = seconds (- 18000),
      head_result = Response (Some ''Thu, 01 Jan 1970 05:00:42 GMT''),
      strptime = (\<lambda>h. if h = ''Thu, 01 Jan 1970 05:00:42 GMT'' then Some (seconds 18042) else None),
      driver_result = DriverReady, step_ok = (\<lambda>_. True), sleep_impl = Nanos64\<rparr>"

definition example_world_sync :: world where
  "example_world_sync = \<lparr>clock = seconds 18040, ticks = [120000, 10, 300, 2000], trace = []\<rparr>"

text \<open>A world whose first sleep takes 31 seconds longer than asked for.\<close>

definition late_world :: world where
  "late_world = \<lparr>clock = 0, ticks = [31000000], trace = []\<rparr>"

text \<open>The same machine on 4 November 2026 at 12:29:35 UTC, 25 seconds before a target of
  07:30:00 local time, with a server whose \<^verbatim>\<open>Date\<close> header is of the year 4100; and
  the first example environment with a server that never answers.\<close>

definition example_env_4100 :: env where
  "example_env_4100 =
     example_env_dated
       \<lparr>head_result := Response (Some ''Fri, 01 Jan 4100 00:00:00 GMT''),
        strptime := (\<lambda>h. if h = ''Fri, 01 Jan 4100 00:00:00 GMT''
                          then Some (seconds 67216348800) else None)\<rparr>"

definition example_world_2026 :: world where
  "example_world_2026 = \<lparr>clock = seconds 1793795375, ticks = [], trace = []\<rparr>"

definition example_env_silent :: env where
  "example_env_silent = example_env\<lparr>head_result := NoReply\<rparr>"

text \<open>The same machine at 05:00:00 UTC, midnight by its own clock, where every operation
  takes exactly as long as it asks for.\<close>

definition scenario_world :: world where
  "scenario_world = \<lparr>clock = seconds 18000, ticks = [], trace = []\<rparr>"

text \<open>A world ten microseconds before the second 00:00:01, in which the second reading of
  the clock falls on that second exactly.\<close>

definition boundary_world :: world where
  "boundary_world = \<lparr>clock = 999990, ticks = [0, 10], trace = []\<rparr>"

text \<open>The example environment, except that \<^verbatim>\<open>submit_pin_form\<close> fails.\<close>

definition pin_form_failure_env :: env where
  "pin_form_failure_env = example_env\<lparr>step_ok := (\<lambda>s. s \<noteq> SubmitPinForm)\<rparr>"


section \<open>Properties of the calibration\<close>

lemma sorted_below_count:
  fixes xs :: "rat list"
  assumes "sorted xs" "k < length xs"
  shows "length (filter (\<lambda>d. d < xs ! k) xs) \<le> k"
proof -
  have "{i. i < length xs \<and> xs ! i < xs ! k} \<subseteq> {..<k}"
  proof
    fix i assume "i \<in> {i. i < length xs \<and> xs ! i < xs ! k}"
    then have i: "i < length xs" "xs ! i < xs ! k" by simp_all
    have "i < k"
    proof (rule ccontr)
      assume "\<not> i < k"
      then have "k \<le> i" by simp
      with assms(1) i(1) have "xs ! k \<le> xs ! i" by (simp add: sorted_nth_mono)
      with i(2) show False by simp
    qed
    then show "i \<in> {..<k}" by simp
  qed
  then have "card {i. i < length xs \<and> xs ! i < xs ! k} \<le> card {..<k}"
    by (intro card_mono) simp_all
  then show ?thesis by (simp add: length_filter_conv_card)
qed

lemma sorted_above_count:
  fixes xs :: "rat list"
  assumes "sorted xs" "k < length xs"
  shows "length (filter (\<lambda>d. xs ! k < d) xs) \<le> length xs - Suc k"
proof -
  have "{i. i < length xs \<and> xs ! k < xs ! i} \<subseteq> {Suc k..<length xs}"
  proof
    fix i assume "i \<in> {i. i < length xs \<and> xs ! k < xs ! i}"
    then have i: "i < length xs" "xs ! k < xs ! i" by simp_all
    have "k < i"
    proof (rule ccontr)
      assume "\<not> k < i"
      then have "i \<le> k" by simp
      with assms have "xs ! i \<le> xs ! k" by (simp add: sorted_nth_mono)
      with i(2) show False by simp
    qed
    with i(1) show "i \<in> {Suc k..<length xs}" by simp
  qed
  then have "card {i. i < length xs \<and> xs ! k < xs ! i} \<le> card {Suc k..<length xs}"
    by (intro card_mono) simp_all
  then show ?thesis by (simp add: length_filter_conv_card)
qed

lemma middle_is_median:
  assumes "ds \<noteq> []"
  shows "is_median (sort ds ! (length ds div 2)) ds"
proof -
  let ?s = "sort ds" and ?k = "length ds div 2"
  have k: "?k < length ?s" using assms by simp
  have mem: "?s ! ?k \<in> set ds" using nth_mem [OF k] by simp
  have lo: "length (filter (\<lambda>d. d < ?s ! ?k) ds) \<le> ?k"
  proof -
    have "length (filter (\<lambda>d. d < ?s ! ?k) ds) = length (filter (\<lambda>d. d < ?s ! ?k) ?s)"
      by (simp add: filter_sort)
    also have "\<dots> \<le> ?k" using sorted_below_count [OF sorted_sort k] .
    finally show ?thesis .
  qed
  have hi: "length (filter (\<lambda>d. ?s ! ?k < d) ds) \<le> length ds - Suc ?k"
  proof -
    have "length (filter (\<lambda>d. ?s ! ?k < d) ds) = length (filter (\<lambda>d. ?s ! ?k < d) ?s)"
      by (simp add: filter_sort)
    also have "\<dots> \<le> length ?s - Suc ?k" using sorted_above_count [OF sorted_sort k] .
    finally show ?thesis by simp
  qed
  from mem lo hi show ?thesis unfolding is_median_def by auto
qed

text \<open>
  Claim C7, as the code has it.  When at least one trial succeeds, the buffer returned is
  the median of the measured round trips plus the margin, clamped as
  \<open>max min_buffer (min _ max_buffer)\<close>, where the median is the entry at index
  \<open>n div 2\<close> of the sorted sample of \<open>n\<close> round trips (the upper one of the two
  in the middle when \<open>n\<close> is even); the result lies between \<open>min_buffer\<close> and
  \<open>max_buffer\<close> whenever \<open>min_buffer \<le> max_buffer\<close>.  When no trial succeeds,
  the function returns the fixed default 0.3, which is not clamped.
\<close>

theorem calibrate_dynamic_buffer_result:
  "(measure_delays trials \<noteq> [] \<longrightarrow>
      calibrate_dynamic_buffer trials margin min_buffer max_buffer
        = max min_buffer
            (min (sort (measure_delays trials) ! (length (measure_delays trials) div 2) + margin)
               max_buffer)
      \<and> is_median (sort (measure_delays trials) ! (length (measure_delays trials) div 2))
            (measure_delays trials)
      \<and> (min_buffer \<le> max_buffer \<longrightarrow>
            min_buffer \<le> calibrate_dynamic_buffer trials margin min_buffer max_buffer
          \<and> calibrate_dynamic_buffer trials margin min_buffer max_buffer \<le> max_buffer))
   \<and> (measure_delays trials = [] \<longrightarrow>
        calibrate_dynamic_buffer trials margin min_buffer max_buffer = 3 / 10)"
proof -
  let ?ds = "measure_delays trials"
  have a: "calibrate_dynamic_buffer trials margin min_buffer max_buffer
             = max min_buffer (min (sort ?ds ! (length ?ds div 2) + margin) max_buffer)"
    if "?ds \<noteq> []"
    using that by (simp add: calibrate_dynamic_buffer_def Let_def)
  have b: "calibrate_dynamic_buffer trials margin min_buffer max_buffer = 3 / 10"
    if "?ds = []"
    using that by (simp add: calibrate_dynamic_buffer_def)
  show ?thesis
  proof (intro conjI impI)
    assume ne: "?ds \<noteq> []"
    show "calibrate_dynamic_buffer trials margin min_buffer max_buffer
             = max min_buffer (min (sort ?ds ! (length ?ds div 2) + margin) max_buffer)"
      by (rule a [OF ne])
  next
    assume ne: "?ds \<noteq> []"
    show "is_median (sort ?ds ! (length ?ds div 2)) ?ds"
      by (rule middle_is_median [OF ne])
  next
    assume "?ds \<noteq> []" "min_buffer \<le> max_buffer"
    then show "min_buffer \<le> calibrate_dynamic_buffer trials margin min_buffer max_buffer"
      by (simp add: a)
  next
    assume "?ds \<noteq> []" "min_buffer \<le> max_buffer"
    then show "calibrate_dynamic_buffer trials margin min_buffer max_buffer \<le> max_buffer"
      by (simp add: a)
  next
    assume "?ds = []" then show "calibrate_dynamic_buffer trials margin min_buffer max_buffer = 3 / 10"
      by (rule b)
  qed
qed

theorem calibrate_dynamic_buffer_result_witness:
  "measure_delays [Done 0 (2/5), Failed, Done 1 (8/5), Done 2 (5/2)] = [2/5, 3/5, 1/2]
   \<and> calibrate_dynamic_buffer [Done 0 (2/5), Failed, Done 1 (8/5), Done 2 (5/2)] (1/20) (1/2) 1 = 11/20
   \<and> measure_delays [Done 0 (4/5), Done 1 (8/5)] = [4/5, 3/5]
   \<and> sort (measure_delays [Done 0 (4/5), Done 1 (8/5)]) ! 1 = 4/5
   \<and> calibrate_dynamic_buffer [Done 0 (4/5), Done 1 (8/5)] (1/20) (1/2) 1 = 17/20
   \<and> calibrate_dynamic_buffer [Failed, Failed] (1/20) (1/2) 1 = 3/10"
  using calibrate_dynamic_buffer_result [of "[Done 0 (2/5), Failed, Done 1 (8/5), Done 2 (5/2)]" "1/20" "1/2" 1]
    calibrate_dynamic_buffer_result [of "[Done 0 (4/5), Done 1 (8/5)]" "1/20" "1/2" 1]
    calibrate_dynamic_buffer_result [of "[Failed, Failed]" "1/20" "1/2" 1]
  by (simp add: calibrate_dynamic_buffer_def)

text \<open>
  Claim C7 as stated fails when every trial raises: with the default range
  \<open>[0.5, 1]\<close> the function returns 0.3, below the range.
\<close>

theorem calibrate_no_sample_counterexample:
  "\<not> (1/2 \<le> calibrate_dynamic_buffer [Failed] (1/20) (1/2) 1
      \<and> calibrate_dynamic_buffer [Failed] (1/20) (1/2) 1 \<le> 1)"
  by (simp add: calibrate_dynamic_buffer_def)


section \<open>Properties of the CRN list\<close>

lemma strip_empty_iff: "strip s = [] \<longleftrightarrow> list_all isspace s"
proof
  assume "strip s = []"
  then have all: "\<forall>x \<in> set (dropWhile isspace s). isspace x"
    by (simp add: strip_def)
  have "dropWhile isspace s = []"
  proof (rule ccontr)
    assume ne: "dropWhile isspace s \<noteq> []"
    then have "\<not> isspace (hd (dropWhile isspace s))" by (rule hd_dropWhile)
    moreover from ne have "hd (dropWhile isspace s) \<in> set (dropWhile isspace s)" by simp
    ultimately show False using all by blast
  qed
  then show "list_all isspace s" by (simp add: list_all_iff)
next
  assume "list_all isspace s"
  then have "dropWhile isspace s = []" by (simp add: list_all_iff)
  then show "strip s = []" by (auto simp: strip_def dest: set_dropWhileD)
qed

lemma crns_are_entries:
  "[strip line. line \<leftarrow> file_lines content, strip line \<noteq> [] \<and> \<not> startswith_hash line]
     = entries content"
proof -
  have "[strip line. line \<leftarrow> ls, strip line \<noteq> [] \<and> \<not> startswith_hash line]
          = map strip (filter (\<lambda>line. \<not> list_all isspace line \<and> \<not> startswith_hash line) ls)"
    for ls
    by (induction ls) (simp_all add: strip_empty_iff)
  then show ?thesis by (simp add: entries_def)
qed

lemma load_crns_unfold:
  "load_crns content =
     (if entries content = [] then Inl Crns_empty
      else if [crn \<leftarrow> entries content. \<not> (length crn = 5 \<and> str_isdigit crn)] \<noteq> []
           then Inl (Invalid_crns [crn \<leftarrow> entries content. \<not> (length crn = 5 \<and> str_isdigit crn)])
           else Inr (entries content))"
  unfolding load_crns_def crns_are_entries Let_def by simp

lemma five_digits_iff:
  "(length crn = 5 \<and> str_isdigit crn) \<longleftrightarrow> (length crn = 5 \<and> list_all isdigit crn)"
  by (auto simp: str_isdigit_def)

text \<open>
  What \<^verbatim>\<open>load_crns\<close> does: it returns the stripped entries of the file (the lines that
  are not blank and do not begin with \<^verbatim>\<open>#\<close>) exactly when there is at least one entry
  and every entry is five characters long, each accepted by \<^verbatim>\<open>str.isdigit\<close>;
  otherwise it raises \<^verbatim>\<open>ValueError\<close>.
\<close>

lemma load_crns_result:
  "(load_crns content = Inr crns \<longleftrightarrow>
      crns = entries content \<and> crns \<noteq> []
      \<and> (\<forall>crn \<in> set crns. length crn = 5 \<and> list_all isdigit crn))
   \<and> ((\<exists>err. load_crns content = Inl err) \<longleftrightarrow>
      \<not> (entries content \<noteq> []
         \<and> (\<forall>crn \<in> set (entries content). length crn = 5 \<and> list_all isdigit crn)))"
proof -
  let ?bad = "[crn \<leftarrow> entries content. \<not> (length crn = 5 \<and> str_isdigit crn)]"
  have bad: "?bad = [] \<longleftrightarrow> (\<forall>crn \<in> set (entries content). length crn = 5 \<and> list_all isdigit crn)"
    by (simp add: filter_empty_conv five_digits_iff)
  show ?thesis
  proof (cases "entries content = []")
    case True
    then show ?thesis by (auto simp: load_crns_unfold)
  next
    case ne: False
    show ?thesis
    proof (cases "?bad = []")
      case True
      with ne bad show ?thesis by (auto simp: load_crns_unfold)
    next
      case False
      with ne bad show ?thesis by (auto simp: load_crns_unfold)
    qed
  qed
qed


lemma load_crns_result_example:
  "load_crns (''# two courses'' @ [CHR 0x0A] @ ''12345 '' @ [CHR 0x0D, CHR 0x0A, CHR 0x0A] @ ''  67890'')
     = Inr [''12345'', ''67890'']
   \<and> entries (''# two courses'' @ [CHR 0x0A] @ ''12345 '' @ [CHR 0x0D, CHR 0x0A, CHR 0x0A] @ ''  67890'')
     = [''12345'', ''67890'']"
  using load_crns_result [of "''# two courses'' @ [CHR 0x0A] @ ''12345 '' @ [CHR 0x0D, CHR 0x0A, CHR 0x0A] @ ''  67890''" "[''12345'', ''67890'']"]
  by (simp add: entries_def file_lines_def strip_def startswith_hash_def
      isspace_def isdigit_def)

text \<open>
  Claim C10 at a file whose one entry is \<^verbatim>\<open>1234\<close> followed by U+00B2 (superscript
  two): the entry is five characters that \<^verbatim>\<open>str.isdigit\<close> accepts, so
  \<^verbatim>\<open>load_crns\<close> returns it, although its last character is no decimal digit and the
  error message of the function says that each CRN must be 5 digits.
\<close>

theorem load_crns_accepts_superscript:
  "load_crns [CHR ''1'', CHR ''2'', CHR ''3'', CHR ''4'', CHR 0xB2, CHR 0x0A]
     = Inr [[CHR ''1'', CHR ''2'', CHR ''3'', CHR ''4'', CHR 0xB2]]
   \<and> \<not> list_all isdecimal [CHR ''1'', CHR ''2'', CHR ''3'', CHR ''4'', CHR 0xB2]"
  by (simp add: load_crns_def file_lines_def strip_def startswith_hash_def str_isdigit_def
      isspace_def isdigit_def isdecimal_def)


section \<open>Properties of the coarse wait\<close>

lemma trace_tick: "trace (tick w) = trace w"
  by (simp add: tick_def split: list.split)

lemma trace_emit: "trace (emit ev w) = trace w @ [(clock w, ev)]"
  by (simp add: emit_def)

lemma ticks_emit: "ticks (emit ev w) = ticks w"
  by (simp add: emit_def)

lemma trace_time_sleep: "trace (time_sleep d w) = trace w @ [(clock w, Sleep d)]"
  by (simp add: time_sleep_def trace_tick trace_emit)

lemma trace_datetime_now: "trace (snd (datetime_now e w)) = trace w"
  by (simp add: datetime_now_def Let_def trace_tick)

lemma trace_coarse_iteration:
  "trace (coarse_iteration e tmb w) =
     trace w @
     (if tmb - (clock w + sys_utcoff e) > seconds 30 then
        [(clock w, Status (WithNum ''Waiting... (T-{remaining:.0f}s)'' (tmb - (clock w + sys_utcoff e)))),
         (clock w, Sleep (seconds 30))]
      else if tmb - (clock w + sys_utcoff e) > seconds 5 then
        [(clock w, Status (WithNum ''Waiting... (T-{remaining:.0f}s)'' (tmb - (clock w + sys_utcoff e)))),
         (clock w, Sleep (seconds 5))]
      else [(clock w, Sleep 500000)])"
  by (simp add: coarse_iteration_def Let_def trace_datetime_now trace_time_sleep
      update_status_def trace_emit clock_emit)

lemma sleeps_append: "sleeps (xs @ ys) = sleeps xs @ sleeps ys"
  by (simp add: sleeps_def)

lemma sleeps_coarse_iteration:
  "\<exists>d. sleeps (trace (coarse_iteration e tmb w)) = sleeps (trace w) @ [d]"
  by (simp add: trace_coarse_iteration sleeps_append) (simp add: sleeps_def)

lemma coarse_wait_trace:
  "\<exists>evs. trace (coarse_wait e tmb w) = trace w @ evs \<and>
     (\<forall>(t, ev) \<in> set evs.
        ev = Status (WithNum ''Waiting... (T-{remaining:.0f}s)'' (tmb - (t + sys_utcoff e)))
        \<or> (0 < tmb - (t + sys_utcoff e)
           \<and> ev = Sleep (if tmb - (t + sys_utcoff e) > seconds 30 then seconds 30
                         else if tmb - (t + sys_utcoff e) > seconds 5 then seconds 5
                         else 500000)))"
  (is "\<exists>evs. _ = _ @ evs \<and> ?ok e tmb evs")
proof (induction e tmb w rule: coarse_wait.induct)
  case (1 e tmb w)
  show ?case
  proof (cases "clock w + sys_utcoff e < tmb")
    case False
    then show ?thesis by (subst coarse_wait.simps) simp
  next
    case True
    from "1.IH" [OF True] obtain evs where
      evs: "trace (coarse_wait e tmb (coarse_iteration e tmb w)) = trace (coarse_iteration e tmb w) @ evs"
      and ok: "?ok e tmb evs" by blast
    obtain it where it: "trace (coarse_iteration e tmb w) = trace w @ it"
      and itok: "?ok e tmb it"
      using True by (auto simp: trace_coarse_iteration)
    have "coarse_wait e tmb w = coarse_wait e tmb (coarse_iteration e tmb w)"
      using True by (subst coarse_wait.simps) simp
    then have "trace (coarse_wait e tmb w) = trace w @ (it @ evs)"
      using evs it by simp
    moreover have "?ok e tmb (it @ evs)" using ok itok by auto
    ultimately show ?thesis by blast
  qed
qed

lemma coarse_wait_exit: "tmb \<le> clock (coarse_wait e tmb w) + sys_utcoff e"
proof (induction e tmb w rule: coarse_wait.induct)
  case (1 e tmb w)
  show ?case
  proof (cases "clock w + sys_utcoff e < tmb")
    case True
    then have "coarse_wait e tmb w = coarse_wait e tmb (coarse_iteration e tmb w)"
      by (subst coarse_wait.simps) simp
    with "1.IH" [OF True] show ?thesis by simp
  next
    case False
    then have "coarse_wait e tmb w = w" by (subst coarse_wait.simps) simp
    with False show ?thesis by simp
  qed
qed

text \<open>
  Claim C2.  The loop leaves at once when the time remaining,
  \<open>target_minus_buffer - now\<close>, is zero or negative, and otherwise runs one iteration,
  which sleeps once, and goes on; when it leaves, the time remaining is zero or negative.
  Every sleep of the loop starts at an instant \<open>t\<close> at which the time remaining,
  computed from the clock at \<open>t\<close> itself, is positive, and lasts 30 seconds when more
  than 30 seconds remain, 5 seconds when more than 5 and at most 30 remain, and half a
  second otherwise; the time remaining that a status message shows is computed from
  the clock at the instant of the message.
\<close>

theorem coarse_wait_tiers:
  "(tmb - (clock w + sys_utcoff e) \<le> 0 \<longrightarrow> coarse_wait e tmb w = w)
   \<and> (0 < tmb - (clock w + sys_utcoff e) \<longrightarrow>
        coarse_wait e tmb w = coarse_wait e tmb (coarse_iteration e tmb w)
        \<and> (\<exists>d. sleeps (trace (coarse_iteration e tmb w)) = sleeps (trace w) @ [d]))
   \<and> tmb - (clock (coarse_wait e tmb w) + sys_utcoff e) \<le> 0
   \<and> (\<exists>evs. trace (coarse_wait e tmb w) = trace w @ evs \<and>
         (\<forall>(t, ev) \<in> set evs.
            (\<forall>txt r. ev = Status (WithNum txt r) \<longrightarrow> r = tmb - (t + sys_utcoff e))
            \<and> (\<forall>d. ev = Sleep d \<longrightarrow>
                  0 < tmb - (t + sys_utcoff e)
                  \<and> (seconds 30 < tmb - (t + sys_utcoff e) \<longrightarrow> d = seconds 30)
                  \<and> (seconds 5 < tmb - (t + sys_utcoff e) \<and> tmb - (t + sys_utcoff e) \<le> seconds 30
                       \<longrightarrow> d = seconds 5)
                  \<and> (tmb - (t + sys_utcoff e) \<le> seconds 5 \<longrightarrow> d = 500000))))"
proof (intro conjI impI)
  assume "tmb - (clock w + sys_utcoff e) \<le> 0"
  then show "coarse_wait e tmb w = w" by (subst coarse_wait.simps) simp
next
  assume "0 < tmb - (clock w + sys_utcoff e)"
  then show "coarse_wait e tmb w = coarse_wait e tmb (coarse_iteration e tmb w)"
    by (subst coarse_wait.simps) simp
next
  show "\<exists>d. sleeps (trace (coarse_iteration e tmb w)) = sleeps (trace w) @ [d]"
    by (rule sleeps_coarse_iteration)
next
  show "tmb - (clock (coarse_wait e tmb w) + sys_utcoff e) \<le> 0"
    using coarse_wait_exit [of tmb e w] by simp
next
  from coarse_wait_trace [of e tmb w] obtain evs where
    evs: "trace (coarse_wait e tmb w) = trace w @ evs"
    and ok: "\<forall>(t, ev) \<in> set evs.
        ev = Status (WithNum ''Waiting... (T-{remaining:.0f}s)'' (tmb - (t + sys_utcoff e)))
        \<or> (0 < tmb - (t + sys_utcoff e)
           \<and> ev = Sleep (if tmb - (t + sys_utcoff e) > seconds 30 then seconds 30
                         else if tmb - (t + sys_utcoff e) > seconds 5 then seconds 5
                         else 500000))"
    by blast
  have "\<forall>(t, ev) \<in> set evs.
            (\<forall>txt r. ev = Status (WithNum txt r) \<longrightarrow> r = tmb - (t + sys_utcoff e))
            \<and> (\<forall>d. ev = Sleep d \<longrightarrow>
                  0 < tmb - (t + sys_utcoff e)
                  \<and> (seconds 30 < tmb - (t + sys_utcoff e) \<longrightarrow> d = seconds 30)
                  \<and> (seconds 5 < tmb - (t + sys_utcoff e) \<and> tmb - (t + sys_utcoff e) \<le> seconds 30
                       \<longrightarrow> d = seconds 5)
                  \<and> (tmb - (t + sys_utcoff e) \<le> seconds 5 \<longrightarrow> d = 500000))"
  proof (intro ballI, clarify)
    fix t ev assume "(t, ev) \<in> set evs"
    with ok have "ev = Status (WithNum ''Waiting... (T-{remaining:.0f}s)'' (tmb - (t + sys_utcoff e)))
        \<or> (0 < tmb - (t + sys_utcoff e)
           \<and> ev = Sleep (if tmb - (t + sys_utcoff e) > seconds 30 then seconds 30
                         else if tmb - (t + sys_utcoff e) > seconds 5 then seconds 5
                         else 500000))" by blast
    then show "(\<forall>txt r. ev = Status (WithNum txt r) \<longrightarrow> r = tmb - (t + sys_utcoff e))
            \<and> (\<forall>d. ev = Sleep d \<longrightarrow>
                  0 < tmb - (t + sys_utcoff e)
                  \<and> (seconds 30 < tmb - (t + sys_utcoff e) \<longrightarrow> d = seconds 30)
                  \<and> (seconds 5 < tmb - (t + sys_utcoff e) \<and> tmb - (t + sys_utcoff e) \<le> seconds 30
                       \<longrightarrow> d = seconds 5)
                  \<and> (tmb - (t + sys_utcoff e) \<le> seconds 5 \<longrightarrow> d = 500000))"
      by auto
  qed
  with evs show "\<exists>evs. trace (coarse_wait e tmb w) = trace w @ evs \<and>
         (\<forall>(t, ev) \<in> set evs.
            (\<forall>txt r. ev = Status (WithNum txt r) \<longrightarrow> r = tmb - (t + sys_utcoff e))
            \<and> (\<forall>d. ev = Sleep d \<longrightarrow>
                  0 < tmb - (t + sys_utcoff e)
                  \<and> (seconds 30 < tmb - (t + sys_utcoff e) \<longrightarrow> d = seconds 30)
                  \<and> (seconds 5 < tmb - (t + sys_utcoff e) \<and> tmb - (t + sys_utcoff e) \<le> seconds 30
                       \<longrightarrow> d = seconds 5)
                  \<and> (tmb - (t + sys_utcoff e) \<le> seconds 5 \<longrightarrow> d = 500000)))"
    by blast
qed

theorem coarse_wait_tiers_witness:
  "trace (coarse_wait example_env (seconds 36) example_world) =
     [(0, Status (WithNum ''Waiting... (T-{remaining:.0f}s)'' 36000000)), (0, Sleep 30000000),
      (30000300, Status (WithNum ''Waiting... (T-{remaining:.0f}s)'' 5999700)),
      (30000300, Sleep 5000000)]
   \<and> seconds 36 - (clock (coarse_wait example_env (seconds 36) example_world)
                      + sys_utcoff example_env) \<le> 0"
  using coarse_wait_tiers [of "seconds 36" example_world example_env]
  by (simp add: coarse_wait.simps coarse_iteration_def example_env_def example_world_def
      time_sleep_def tick_def emit_def datetime_now_def update_status_def)

lemma tick_bounded:
  assumes "\<forall>t \<in> set (ticks w). int t \<le> eps" "0 \<le> eps"
  shows "clock (tick w) \<le> clock w + eps \<and> set (ticks (tick w)) \<subseteq> set (ticks w)"
  using assms by (cases "ticks w") (auto simp: tick_def)

lemma coarse_iteration_bounded:
  assumes b: "\<forall>t \<in> set (ticks w). int t \<le> eps" "0 \<le> eps"
    and r: "clock w + sys_utcoff e < tmb"
  shows "clock (coarse_iteration e tmb w) + sys_utcoff e < tmb + 500000 + 2 * eps
         \<and> set (ticks (coarse_iteration e tmb w)) \<subseteq> set (ticks w)"
proof -
  define d :: int where "d = (if tmb - (clock w + sys_utcoff e) > seconds 30 then seconds 30
     else if tmb - (clock w + sys_utcoff e) > seconds 5 then seconds 5 else 500000)"
  define w1 where "w1 = (if tmb - (clock w + sys_utcoff e) > seconds 5
     then update_status (WithNum ''Waiting... (T-{remaining:.0f}s)'' (tmb - (clock w + sys_utcoff e))) w else w)"
  define w2 where "w2 = (emit (Sleep d) w1)\<lparr>clock := clock w1 + d\<rparr>"
  have it: "coarse_iteration e tmb w = tick (tick w2)"
    by (simp add: coarse_iteration_def Let_def d_def w1_def w2_def time_sleep_def datetime_now_def)
  have w1: "clock w1 = clock w" "ticks w1 = ticks w"
    by (simp_all add: w1_def update_status_def emit_def)
  have w2: "clock w2 = clock w + d" "ticks w2 = ticks w"
    by (simp_all add: w2_def w1 emit_def)
  have t1: "clock (tick w2) \<le> clock w2 + eps \<and> set (ticks (tick w2)) \<subseteq> set (ticks w2)"
    using tick_bounded [of w2 eps] b w2 by simp
  then have b2: "\<forall>t \<in> set (ticks (tick w2)). int t \<le> eps" using b w2 by auto
  have t2: "clock (tick (tick w2)) \<le> clock (tick w2) + eps
            \<and> set (ticks (tick (tick w2))) \<subseteq> set (ticks (tick w2))"
    using tick_bounded [OF b2 b(2)] .
  have dd: "clock w + sys_utcoff e + d < tmb + 500000"
    using r by (simp add: d_def)
  show ?thesis using t1 t2 w2 dd unfolding it by auto
qed

lemma coarse_wait_bounded:
  assumes "\<forall>t \<in> set (ticks w). int t \<le> eps" "0 \<le> eps"
    and "clock w + sys_utcoff e < tmb + 500000 + 2 * eps"
  shows "clock (coarse_wait e tmb w) + sys_utcoff e < tmb + 500000 + 2 * eps"
  using assms
proof (induction e tmb w rule: coarse_wait.induct)
  case (1 e tmb w)
  show ?case
  proof (cases "clock w + sys_utcoff e < tmb")
    case True
    from coarse_iteration_bounded [OF "1.prems"(1,2) True]
    have a: "clock (coarse_iteration e tmb w) + sys_utcoff e < tmb + 500000 + 2 * eps"
      and b: "\<forall>t \<in> set (ticks (coarse_iteration e tmb w)). int t \<le> eps"
      using "1.prems"(1) by auto
    have "coarse_wait e tmb w = coarse_wait e tmb (coarse_iteration e tmb w)"
      using True by (subst coarse_wait.simps) simp
    with "1.IH" [OF True b "1.prems"(2) a] show ?thesis by simp
  next
    case False
    then have "coarse_wait e tmb w = w" by (subst coarse_wait.simps) simp
    with "1.prems" show ?thesis by simp
  qed
qed

text \<open>
  Claim C4, as the code has it.  Let the coarse wait start while \<open>T - L\<close> is still
  ahead, and let no operation take longer than \<open>eps\<close> beyond what it asks for.  Then
  the loop is left at a reading of the clock that is not earlier than \<open>T - L\<close> and
  less than half a second plus \<open>2 * eps\<close> later than \<open>T - L\<close>; so it is not
  later than \<open>T - L\<close> plus 30 seconds as long as \<open>2 * eps\<close> is at most 29.5
  seconds.
\<close>

theorem coarse_wait_exit_window:
  assumes future: "clock w + sys_utcoff e < T - L"
    and ticks: "\<forall>t \<in> set (ticks w). int t \<le> eps" and eps: "0 \<le> eps"
  shows "T - L \<le> clock (coarse_wait e (T - L) w) + sys_utcoff e
       \<and> clock (coarse_wait e (T - L) w) + sys_utcoff e < T - L + 500000 + 2 * eps
       \<and> (2 * eps \<le> 29500000 \<longrightarrow>
            clock (coarse_wait e (T - L) w) + sys_utcoff e \<le> T - L + seconds 30)"
proof -
  have "clock (coarse_wait e (T - L) w) + sys_utcoff e < (T - L) + 500000 + 2 * eps"
    using coarse_wait_bounded [OF ticks eps] future eps by simp
  with coarse_wait_exit [of "T - L" e w] show ?thesis by simp
qed

theorem coarse_wait_exit_window_witness:
  "clock example_world + sys_utcoff example_env < seconds 61 - seconds 25
   \<and> ticks example_world = [100, 200, 4000000, 0, 300000, 0]
   \<and> clock (coarse_wait example_env (seconds 61 - seconds 25) example_world)
        + sys_utcoff example_env = 39000300
   \<and> seconds 61 - seconds 25
        \<le> clock (coarse_wait example_env (seconds 61 - seconds 25) example_world)
            + sys_utcoff example_env
   \<and> clock (coarse_wait example_env (seconds 61 - seconds 25) example_world)
        + sys_utcoff example_env < seconds 61 - seconds 25 + 500000 + 2 * 4000000
   \<and> clock (coarse_wait example_env (seconds 61 - seconds 25) example_world)
        + sys_utcoff example_env \<le> seconds 61 - seconds 25 + seconds 30"
proof -
  have h1: "clock example_world + sys_utcoff example_env < seconds 61 - seconds 25"
    by (simp add: example_env_def example_world_def)
  have h2: "\<forall>t \<in> set (ticks example_world). int t \<le> 4000000"
    by (simp add: example_world_def)
  have h3: "ticks example_world = [100, 200, 4000000, 0, 300000, 0]"
    by (simp add: example_world_def)
  have c: "clock (coarse_wait example_env (seconds 61 - seconds 25) example_world)
             + sys_utcoff example_env = 39000300"
    by (simp add: coarse_wait.simps coarse_iteration_def example_env_def example_world_def
        time_sleep_def tick_def emit_def datetime_now_def update_status_def)
  from coarse_wait_exit_window [OF h1 h2] h1 h3 c show ?thesis by simp
qed

text \<open>
  Claim C4 as stated fails when a sleep overruns by more than the claim allows for: with
  \<open>T - L\<close> one second ahead, the loop sleeps half a second; if that sleep takes 31
  seconds longer, the loop is left 30.5 seconds after \<open>T - L\<close>.
\<close>

theorem coarse_wait_overrun_counterexample:
  "clock late_world + sys_utcoff example_env < seconds 26 - FINAL_POLL_BUFFER_SECONDS
   \<and> clock (coarse_wait example_env (seconds 26 - FINAL_POLL_BUFFER_SECONDS) late_world)
        + sys_utcoff example_env = 31500000
   \<and> \<not> (clock (coarse_wait example_env (seconds 26 - FINAL_POLL_BUFFER_SECONDS) late_world)
          + sys_utcoff example_env
        \<le> seconds 26 - FINAL_POLL_BUFFER_SECONDS + seconds 30)"
  by (simp add: coarse_wait.simps coarse_iteration_def example_env_def late_world_def
      FINAL_POLL_BUFFER_SECONDS_def time_sleep_def tick_def emit_def datetime_now_def
      update_status_def)


section \<open>Properties of the final synchronisation\<close>

lemma calls_append: "calls s (xs @ ys) = calls s xs @ calls s ys"
  by (simp add: calls_def)

lemma tick_eq: "tick w = w\<lparr>clock := clock w + next_tick (ticks w), ticks := tl (ticks w)\<rparr>"
  by (simp add: tick_def next_tick_def split: list.split)

lemma emit_eq: "emit ev w = w\<lparr>trace := trace w @ [(clock w, ev)]\<rparr>"
  by (simp add: emit_def)

lemma next_tick_nonneg: "0 \<le> next_tick ts"
  by (simp add: next_tick_def split: list.split)

lemma next_tick_Nil: "next_tick [] = 0"
  by (simp add: next_tick_def)

lemma tl3: "length ts \<le> 3 \<Longrightarrow> tl (tl (tl ts)) = []"
  by (cases ts; cases "tl ts"; cases "tl (tl ts)") auto

lemma tl2: "length ts \<le> 2 \<Longrightarrow> tl (tl ts) = []"
  by (cases ts; cases "tl ts") auto

lemma sleep_max_least: "4294967295000 \<le> sleep_max impl"
  by (cases impl) (simp_all add: sleep_max_def)

lemma requests_head_reply:
  "head_result e \<noteq> NoReply \<Longrightarrow> requests_head e w = (head_result e, tick (emit Head w))"
  by (cases "head_result e") (simp_all add: requests_head_def)

lemma final_sync_try_date:
  assumes "head_result e = Response (Some date_header)" "date_header \<noteq> []"
    "strptime e date_header = Some server_time"
  shows "final_sync_try e target_time w =
    (let w2 = tick (tick (emit Head w));
         offset_seconds = server_time - clock w2;
         w3 = logging INFO (WithNum ''Server time offset: {offset_seconds:.3f} seconds.'' offset_seconds) w2;
         fire_at = target_time - ny_utcoff e - offset_seconds;
         w4 = tick w3;
         remaining_sleep_seconds = fire_at - clock w4
     in if fire_at < DATETIME_MIN \<or> DATETIME_MAX < fire_at then (Throws OverflowError, w3)
        else if remaining_sleep_seconds > 0 then
          checked_sleep e remaining_sleep_seconds
            (update_status (WithNum ''Final sleep: {remaining_sleep_seconds:.3f}s'' remaining_sleep_seconds)
               (logging INFO (WithNum ''Calculated final sleep: {remaining_sleep_seconds:.4f} seconds.'' remaining_sleep_seconds) w4))
        else
          (Completes, logging WARNING
                   (WithNum ''Offset calculation resulted in zero/negative sleep ({remaining_sleep_seconds:.4f}s). Submitting immediately.''
                      remaining_sleep_seconds) w4))"
proof -
  have r: "requests_head e w = (Response (Some date_header), tick (emit Head w))"
    using requests_head_reply [of e w] assms(1) by simp
  show ?thesis
    unfolding final_sync_try_def r using assms(2,3)
    by (simp add: Let_def split_def datetime_now_utc_def)
qed

lemma final_sync_try_fails:
  assumes "head_result e = Raises \<or> head_result e = Response None
           \<or> head_result e = Response (Some [])
           \<or> (\<exists>h. head_result e = Response (Some h) \<and> strptime e h = None)"
  shows "\<exists>ex. final_sync_try e target_time w = (Throws ex, tick (emit Head w))"
proof -
  have "head_result e \<noteq> NoReply" using assms by auto
  from requests_head_reply [OF this, of w] assms show ?thesis
    by (auto simp: final_sync_try_def)
qed

lemma calls_tick: "calls s (trace (tick w)) = calls s (trace w)"
  by (simp add: trace_tick)

lemma calls_emit: "ev \<noteq> Call s \<Longrightarrow> calls s (trace (emit ev w)) = calls s (trace w)"
  by (simp add: trace_emit calls_def)

lemma calls_checked_sleep: "calls s (trace (snd (checked_sleep e d w))) = calls s (trace w)"
  by (simp add: checked_sleep_def trace_time_sleep calls_def)

lemma calls_final_sync_try:
  "calls s (trace (snd (final_sync_try e target_time w))) = calls s (trace w)"
  by (simp add: final_sync_try_def requests_head_def Let_def split_def datetime_now_utc_def
      logging_def update_status_def calls_checked_sleep calls_tick calls_emit
      split: response.split option.split)

lemma calls_final_sync: "calls s (trace (snd (final_sync e target_time w))) = calls s (trace w)"
proof (cases "final_sync_try e target_time w")
  case (Pair ended w')
  with calls_final_sync_try [of s e target_time w]
  have w': "calls s (trace w') = calls s (trace w)" by simp
  show ?thesis
    unfolding final_sync_def Pair using w'
    by (cases ended)
       (simp_all add: Let_def split_def datetime_now_def logging_def calls_checked_sleep
          calls_tick calls_emit)
qed

lemma calls_coarse_wait: "calls s (trace (coarse_wait e tmb w)) = calls s (trace w)"
proof -
  from coarse_wait_trace [of e tmb w] obtain evs where
    evs: "trace (coarse_wait e tmb w) = trace w @ evs"
    and ok: "\<forall>(t, ev) \<in> set evs.
        ev = Status (WithNum ''Waiting... (T-{remaining:.0f}s)'' (tmb - (t + sys_utcoff e)))
        \<or> (0 < tmb - (t + sys_utcoff e)
           \<and> ev = Sleep (if tmb - (t + sys_utcoff e) > seconds 30 then seconds 30
                         else if tmb - (t + sys_utcoff e) > seconds 5 then seconds 5
                         else 500000))"
    by blast
  have "\<forall>(t, ev) \<in> set evs. ev \<noteq> Call s" using ok by fastforce
  then have "calls s evs = []" by (induction evs) (auto simp: calls_def)
  with evs show ?thesis by (simp add: calls_append)
qed

lemma calls_before_final_sync:
  "calls s (trace (before_final_sync e target_time w)) = calls s (trace w)"
  by (simp add: before_final_sync_def Let_def update_status_def logging_def emit_eq
      calls_append calls_coarse_wait trace_datetime_now)
     (simp add: calls_def)

lemma timed_submission_completes:
  assumes "final_sync e target_time (before_final_sync e target_time w0) = (Completes, w7)"
  shows "fst (timed_submission e target_time w0) = Completes"
    and "calls SubmitPinForm (trace (snd (timed_submission e target_time w0)))
           = calls SubmitPinForm (trace w0) @ [clock w7]"
    and "sleeps (trace (snd (timed_submission e target_time w0))) = sleeps (trace w7)"
proof -
  have c: "calls SubmitPinForm (trace w7) = calls SubmitPinForm (trace w0)"
    using calls_final_sync [of SubmitPinForm e target_time "before_final_sync e target_time w0"]
      calls_before_final_sync [of SubmitPinForm e target_time w0] assms by simp
  show "fst (timed_submission e target_time w0) = Completes"
    by (simp add: timed_submission_def assms Let_def)
  show "calls SubmitPinForm (trace (snd (timed_submission e target_time w0)))
           = calls SubmitPinForm (trace w0) @ [clock w7]"
    by (simp add: timed_submission_def assms Let_def call_def update_status_def tick_eq emit_eq
        calls_append c)
       (simp add: calls_def)
  show "sleeps (trace (snd (timed_submission e target_time w0))) = sleeps (trace w7)"
    by (simp add: timed_submission_def assms Let_def call_def update_status_def tick_eq emit_eq
        sleeps_append)
       (simp add: sleeps_def)
qed

lemma timed_submission_no_reply:
  assumes "head_result e = NoReply"
  shows "timed_submission e target_time w0
           = (Blocks, emit Head (before_final_sync e target_time w0))"
  using assms
  by (simp add: timed_submission_def final_sync_def final_sync_try_def requests_head_def)


text \<open>
  Claim C1, as the code has it.  Let the response of the request carry a \<^verbatim>\<open>Date\<close>
  header that parses to a time less than \<open>2^33\<close> seconds (about 272 years) from the
  local clock, so that the offset in float seconds is exact to the microsecond; let the
  instant to fire at be a datetime, and let the sleep be one that \<^verbatim>\<open>time.sleep\<close>
  accepts.  Then the offset is the server's time minus the local
  UTC reading taken when the response has arrived; the instant to fire at is the target
  (as a UTC instant) minus the offset; the sleep is that instant minus a reading of the
  clock taken after that.  If the sleep is positive, the block sleeps once, for exactly
  that long, and ends no earlier than the instant to fire at, and exactly at it when the
  sleep does not overrun; otherwise it logs a warning and does not sleep.  The branch for
  a target time then submits the PIN form, once, at the clock at which the block ended.
\<close>

theorem final_sync_with_date:
  assumes date: "head_result e = Response (Some date_header)" "date_header \<noteq> []"
      "strptime e date_header = Some server_time"
    and entry: "w = before_final_sync e target_time w0"
    and range:
      "DATETIME_MIN \<le> (target_time - ny_utcoff e) - (server_time - clock (tick (tick w)))"
      "(target_time - ny_utcoff e) - (server_time - clock (tick (tick w))) \<le> DATETIME_MAX"
    and sleepable:
      "(target_time - ny_utcoff e) - (server_time - clock (tick (tick w)))
         - clock (tick (tick (tick w))) \<le> sleep_max (sleep_impl e)"
    and exact: "abs (server_time - clock (tick (tick w))) < seconds 8589934592"
  shows "let received = clock (tick (tick w));
             offset = server_time - received;
             fire_at = (target_time - ny_utcoff e) - offset;
             now = clock (tick (tick (tick w)));
             sleep_seconds = fire_at - now;
             after = snd (final_sync e target_time w)
         in fst (final_sync e target_time w) = Completes
            \<and> trace after =
              trace w @
              [(clock w, Head),
               (received, Logging INFO (WithNum ''Server time offset: {offset_seconds:.3f} seconds.'' offset))] @
              (if sleep_seconds > 0 then
                 [(now, Logging INFO (WithNum ''Calculated final sleep: {remaining_sleep_seconds:.4f} seconds.'' sleep_seconds)),
                  (now, Status (WithNum ''Final sleep: {remaining_sleep_seconds:.3f}s'' sleep_seconds)),
                  (now, Sleep sleep_seconds)]
               else
                 [(now, Logging WARNING
                          (WithNum ''Offset calculation resulted in zero/negative sleep ({remaining_sleep_seconds:.4f}s). Submitting immediately.''
                             sleep_seconds))])
            \<and> (sleep_seconds > 0 \<longrightarrow> fire_at \<le> clock after \<and> (length (ticks w) \<le> 3 \<longrightarrow> clock after = fire_at))
            \<and> (sleep_seconds \<le> 0 \<longrightarrow> clock after = now)
            \<and> fst (timed_submission e target_time w0) = Completes
            \<and> calls SubmitPinForm (trace (snd (timed_submission e target_time w0)))
               = calls SubmitPinForm (trace w0) @ [clock after]
            \<and> sleeps (trace (snd (timed_submission e target_time w0)))
               = sleeps (trace w) @ (if sleep_seconds > 0 then [sleep_seconds] else [])"
proof -
  define received where "received = clock (tick (tick w))"
  define now where "now = clock (tick (tick (tick w)))"
  define fire_at where "fire_at = (target_time - ny_utcoff e) - (server_time - received)"
  define sleep_seconds where "sleep_seconds = fire_at - now"
  have rec: "received = clock w + next_tick (ticks w) + next_tick (tl (ticks w))"
    by (simp add: received_def tick_eq)
  have nw: "now = received + next_tick (tl (tl (ticks w)))"
    by (simp add: now_def received_def tick_eq)
  have nn: "0 \<le> next_tick (tl (tl (tl (ticks w))))" by (rule next_tick_nonneg)
  have r: "\<not> (fire_at < DATETIME_MIN \<or> DATETIME_MAX < fire_at)"
    using range by (simp add: fire_at_def received_def)
  have sl: "\<not> sleep_seconds > sleep_max (sleep_impl e)"
    using sleepable by (simp add: sleep_seconds_def fire_at_def received_def now_def)
  have fs: "final_sync e target_time w =
      (Completes,
       if sleep_seconds > 0 then
         w\<lparr>clock := fire_at + next_tick (tl (tl (tl (ticks w)))),
           ticks := tl (tl (tl (tl (ticks w)))),
           trace := trace w @
             [(clock w, Head),
              (received, Logging INFO (WithNum ''Server time offset: {offset_seconds:.3f} seconds.'' (server_time - received))),
              (now, Logging INFO (WithNum ''Calculated final sleep: {remaining_sleep_seconds:.4f} seconds.'' sleep_seconds)),
              (now, Status (WithNum ''Final sleep: {remaining_sleep_seconds:.3f}s'' sleep_seconds)),
              (now, Sleep sleep_seconds)]\<rparr>
       else
         w\<lparr>clock := now, ticks := tl (tl (tl (ticks w))),
           trace := trace w @
             [(clock w, Head),
              (received, Logging INFO (WithNum ''Server time offset: {offset_seconds:.3f} seconds.'' (server_time - received))),
              (now, Logging WARNING
                          (WithNum ''Offset calculation resulted in zero/negative sleep ({remaining_sleep_seconds:.4f}s). Submitting immediately.''
                             sleep_seconds))]\<rparr>)"
    unfolding final_sync_def final_sync_try_date [OF date] Let_def
    using r sl
    by (simp add: fire_at_def sleep_seconds_def rec nw checked_sleep_def logging_def
        update_status_def time_sleep_def tick_eq emit_eq)
  obtain w7 where w7: "final_sync e target_time w = (Completes, w7)" using fs by simp
  have w7': "final_sync e target_time (before_final_sync e target_time w0) = (Completes, w7)"
    using w7 entry by simp
  note ts = timed_submission_completes [OF w7']
  have tr7: "sleeps (trace w7) = sleeps (trace w) @ (if sleep_seconds > 0 then [sleep_seconds] else [])"
    using w7 unfolding fs by (auto simp: sleeps_append) (simp_all add: sleeps_def)
  have a: "snd (final_sync e target_time w) = w7" using w7 by simp
  have c1: "sleep_seconds > 0 \<Longrightarrow> fire_at \<le> clock w7 \<and> (length (ticks w) \<le> 3 \<longrightarrow> clock w7 = fire_at)"
    using w7 nn unfolding fs by (auto simp: tl3 next_tick_Nil)
  have c2: "sleep_seconds \<le> 0 \<Longrightarrow> clock w7 = now"
    using w7 unfolding fs by auto
  have tr: "trace w7 =
              trace w @
              [(clock w, Head),
               (received, Logging INFO (WithNum ''Server time offset: {offset_seconds:.3f} seconds.'' (server_time - received)))] @
              (if sleep_seconds > 0 then
                 [(now, Logging INFO (WithNum ''Calculated final sleep: {remaining_sleep_seconds:.4f} seconds.'' sleep_seconds)),
                  (now, Status (WithNum ''Final sleep: {remaining_sleep_seconds:.3f}s'' sleep_seconds)),
                  (now, Sleep sleep_seconds)]
               else
                 [(now, Logging WARNING
                          (WithNum ''Offset calculation resulted in zero/negative sleep ({remaining_sleep_seconds:.4f}s). Submitting immediately.''
                             sleep_seconds))])"
    using w7 unfolding fs by auto
  show ?thesis
    unfolding Let_def received_def [symmetric] now_def [symmetric] fire_at_def [symmetric]
      sleep_seconds_def [symmetric] a
    using w7 tr c1 c2 ts tr7 by simp
qed


theorem final_sync_with_date_witness:
  "before_final_sync example_env_dated (seconds 65) example_world_sync =
     \<lparr>clock = 18040120000, ticks = [10, 300, 2000],
      trace = [(18040000000, Status (WithNum ''Waiting for {target_time}...'' 65000000)),
               (18040000000, Logging INFO (WithNum ''Target local time set for: {target_time}'' 65000000)),
               (18040120000, Status (Plain ''Final sync (T-25.0s)...'')),
               (18040120000, Logging INFO (Plain ''Reached T-25.0s. Polling server for final time sync.''))]\<rparr>
   \<and> fst (timed_submission example_env_dated (seconds 65) example_world_sync) = Completes
   \<and> calls SubmitPinForm (trace (snd (timed_submission example_env_dated (seconds 65) example_world_sync)))
       = [18063120310]
   \<and> sleeps (trace (snd (timed_submission example_env_dated (seconds 65) example_world_sync)))
       = [22998000]"
proof -
  define w where "w = before_final_sync example_env_dated (seconds 65) example_world_sync"
  have cw: "coarse_wait example_env_dated (seconds 65 - FINAL_POLL_BUFFER_SECONDS) v = v"
    if "clock v = 18040120000" for v
    using that
    by (subst coarse_wait.simps) (simp add: example_env_dated_def FINAL_POLL_BUFFER_SECONDS_def)
  have w: "w =
     \<lparr>clock = 18040120000, ticks = [10, 300, 2000],
      trace = [(18040000000, Status (WithNum ''Waiting for {target_time}...'' 65000000)),
               (18040000000, Logging INFO (WithNum ''Target local time set for: {target_time}'' 65000000)),
               (18040120000, Status (Plain ''Final sync (T-25.0s)...'')),
               (18040120000, Logging INFO (Plain ''Reached T-25.0s. Polling server for final time sync.''))]\<rparr>"
    unfolding w_def before_final_sync_def Let_def
    apply (subst cw)
     apply (simp add: example_world_sync_def datetime_now_def logging_def update_status_def
        tick_def emit_def Let_def)
    apply (simp add: example_world_sync_def datetime_now_def logging_def update_status_def
        tick_def emit_def Let_def)
    done
  have h1: "head_result example_env_dated = Response (Some ''Thu, 01 Jan 1970 05:00:42 GMT'')"
    by (simp add: example_env_dated_def)
  have h2: "''Thu, 01 Jan 1970 05:00:42 GMT'' \<noteq> []" by simp
  have h3: "strptime example_env_dated ''Thu, 01 Jan 1970 05:00:42 GMT'' = Some (seconds 18042)"
    by (simp add: example_env_dated_def)
  have t2: "clock (tick (tick w)) = 18040120310" "clock (tick (tick (tick w))) = 18040122310"
    by (simp_all add: w tick_def)
  have h5: "DATETIME_MIN \<le> (seconds 65 - ny_utcoff example_env_dated)
              - (seconds 18042 - clock (tick (tick w)))"
    by (simp add: t2 DATETIME_MIN_def example_env_dated_def)
  have h6: "(seconds 65 - ny_utcoff example_env_dated)
              - (seconds 18042 - clock (tick (tick w))) \<le> DATETIME_MAX"
    by (simp add: t2 DATETIME_MAX_def example_env_dated_def)
  have h7: "(seconds 65 - ny_utcoff example_env_dated)
              - (seconds 18042 - clock (tick (tick w))) - clock (tick (tick (tick w)))
            \<le> sleep_max (sleep_impl example_env_dated)"
    by (simp add: t2 sleep_max_def example_env_dated_def)
  have h8: "abs (seconds 18042 - clock (tick (tick w))) < seconds 8589934592"
    by (simp add: t2)
  note t = final_sync_with_date [OF h1 h2 h3 w_def h5 h6 h7 h8]
  have ny: "ny_utcoff example_env_dated = seconds (- 18000)" by (simp add: example_env_dated_def)
  have e: "clock (snd (final_sync example_env_dated (seconds 65) w)) = 18063120310"
    using t unfolding Let_def t2 ny by (simp add: w)
  have tr0: "sleeps (trace w) = []" "calls SubmitPinForm (trace example_world_sync) = []"
    by (simp_all add: w sleeps_def calls_def example_world_sync_def)
  from t show ?thesis
    unfolding Let_def t2 ny e tr0 w_def [symmetric] using w by simp
qed

text \<open>
  Claim C1 as stated fails on a header that parses to a time far ahead: with a
  \<^verbatim>\<open>Date\<close> of the year 4100 the target minus the offset is before the year 1, the
  subtraction of line 472 raises, and the handler logs an error and sleeps the 25
  seconds to the local target; there is neither the computed sleep nor the warning.
\<close>

theorem final_sync_far_date_counterexample:
  "head_result example_env_4100 = Response (Some ''Fri, 01 Jan 4100 00:00:00 GMT'')
   \<and> strptime example_env_4100 ''Fri, 01 Jan 4100 00:00:00 GMT'' = Some (seconds 67216348800)
   \<and> final_sync example_env_4100 (seconds 1793777400) example_world_2026 =
       (Completes,
        \<lparr>clock = seconds 1793795400, ticks = [],
         trace = [(1793795375000000, Head),
                  (1793795375000000,
                   Logging INFO (WithNum ''Server time offset: {offset_seconds:.3f} seconds.''
                     65422553425000000)),
                  (1793795375000000,
                   Logging ERROR
                     (WithExn ''Final server time sync failed: {e}. Proceeding with local time.''
                        OverflowError)),
                  (1793795375000000, Sleep 25000000)]\<rparr>)"
  by (simp add: example_env_4100_def example_env_dated_def example_world_2026_def final_sync_def
      final_sync_try_def requests_head_def datetime_now_utc_def datetime_now_def logging_def
      checked_sleep_def time_sleep_def sleep_max_def tick_def emit_def Let_def
      DATETIME_MIN_def DATETIME_MAX_def)


text \<open>
  Claim C3, as the code has it.  When the request raises, or the response has no
  \<^verbatim>\<open>Date\<close> header or an empty one, or the header does not parse, the \<^verbatim>\<open>try\<close>
  block raises and the handler takes over: the failure is logged as an error, the
  machine's local time is read afresh, and if the target is still ahead (by no more than
  \<^verbatim>\<open>time.sleep\<close> accepts) there is one sleep that ends at the target's local reading,
  no earlier, and exactly then when the sleep does not overrun.  The final synchronisation
  and the branch for a target time run to their end, and the PIN form is submitted once, at
  the clock at which the handler ended, that is after the sleep.
\<close>

theorem final_sync_probe_failure:
  assumes fails: "head_result e = Raises \<or> head_result e = Response None
           \<or> head_result e = Response (Some [])
           \<or> (\<exists>h. head_result e = Response (Some h) \<and> strptime e h = None)"
    and entry: "w = before_final_sync e target_time w0"
    and sleepable:
      "target_time - (clock (tick (tick w)) + sys_utcoff e) \<le> sleep_max (sleep_impl e)"
  shows "let failed_at = clock (tick w);
             now = clock (tick (tick w)) + sys_utcoff e;
             after = snd (final_sync e target_time w)
         in (\<exists>ex. fst (final_sync_try e target_time w) = Throws ex
               \<and> trace after =
                   trace w @
                   [(clock w, Head),
                    (failed_at, Logging ERROR
                       (WithExn ''Final server time sync failed: {e}. Proceeding with local time.'' ex))] @
                   (if target_time - now > 0
                    then [(now - sys_utcoff e, Sleep (target_time - now))] else []))
            \<and> fst (final_sync e target_time w) = Completes
            \<and> (target_time - now > 0 \<longrightarrow>
                  target_time \<le> clock after + sys_utcoff e
                  \<and> (length (ticks w) \<le> 2 \<longrightarrow> clock after + sys_utcoff e = target_time))
            \<and> (target_time - now \<le> 0 \<longrightarrow> clock after + sys_utcoff e = now)
            \<and> fst (timed_submission e target_time w0) = Completes
            \<and> calls SubmitPinForm (trace (snd (timed_submission e target_time w0)))
                 = calls SubmitPinForm (trace w0) @ [clock after]"
proof -
  from final_sync_try_fails [OF fails] obtain ex where
    ex: "final_sync_try e target_time w = (Throws ex, tick (emit Head w))" by blast
  define now where "now = clock (tick (tick w)) + sys_utcoff e"
  have nw: "now = clock w + next_tick (ticks w) + next_tick (tl (ticks w)) + sys_utcoff e"
    by (simp add: now_def tick_eq)
  have nn: "0 \<le> next_tick (tl (tl (ticks w)))" by (rule next_tick_nonneg)
  have sl: "\<not> target_time - now > sleep_max (sleep_impl e)"
    using sleepable by (simp add: now_def)
  have fs: "final_sync e target_time w =
      (Completes,
       if target_time - now > 0 then
         w\<lparr>clock := target_time - sys_utcoff e + next_tick (tl (tl (ticks w))),
           ticks := tl (tl (tl (ticks w))),
           trace := trace w @
             [(clock w, Head),
              (clock (tick w), Logging ERROR
                 (WithExn ''Final server time sync failed: {e}. Proceeding with local time.'' ex)),
              (now - sys_utcoff e, Sleep (target_time - now))]\<rparr>
       else
         w\<lparr>clock := now - sys_utcoff e, ticks := tl (tl (ticks w)),
           trace := trace w @
             [(clock w, Head),
              (clock (tick w), Logging ERROR
                 (WithExn ''Final server time sync failed: {e}. Proceeding with local time.'' ex))]\<rparr>)"
    unfolding final_sync_def ex Let_def
    using sl
    by (simp add: split_def nw datetime_now_def checked_sleep_def logging_def time_sleep_def
        tick_eq emit_eq Let_def)
  obtain w7 where w7: "final_sync e target_time w = (Completes, w7)" using fs by simp
  have w7': "final_sync e target_time (before_final_sync e target_time w0) = (Completes, w7)"
    using w7 entry by simp
  note ts = timed_submission_completes [OF w7']
  have a: "snd (final_sync e target_time w) = w7" using w7 by simp
  have tr: "trace w7 =
                   trace w @
                   [(clock w, Head),
                    (clock (tick w), Logging ERROR
                       (WithExn ''Final server time sync failed: {e}. Proceeding with local time.'' ex))] @
                   (if target_time - now > 0
                    then [(now - sys_utcoff e, Sleep (target_time - now))] else [])"
    using w7 unfolding fs by auto
  have c1: "target_time - now > 0 \<Longrightarrow>
              target_time \<le> clock w7 + sys_utcoff e
              \<and> (length (ticks w) \<le> 2 \<longrightarrow> clock w7 + sys_utcoff e = target_time)"
    using w7 nn unfolding fs by (auto simp: tl2 next_tick_Nil)
  have c2: "target_time - now \<le> 0 \<Longrightarrow> clock w7 + sys_utcoff e = now"
    using w7 unfolding fs by auto
  have t: "fst (final_sync_try e target_time w) = Throws ex" using ex by simp
  show ?thesis
    unfolding Let_def now_def [symmetric] a
    using w7 t tr c1 c2 ts by auto
qed

theorem final_sync_probe_failure_witness:
  "head_result example_env = Raises
   \<and> before_final_sync example_env (seconds 10) example_world =
       \<lparr>clock = 100, ticks = [200, 4000000, 0, 300000, 0],
        trace = [(0, Status (WithNum ''Waiting for {target_time}...'' 10000000)),
                 (0, Logging INFO (WithNum ''Target local time set for: {target_time}'' 10000000)),
                 (100, Status (Plain ''Final sync (T-25.0s)...'')),
                 (100, Logging INFO (Plain ''Reached T-25.0s. Polling server for final time sync.''))]\<rparr>
   \<and> fst (timed_submission example_env (seconds 10) example_world) = Completes
   \<and> sleeps (trace (snd (timed_submission example_env (seconds 10) example_world))) = [5999700]
   \<and> calls SubmitPinForm (trace (snd (timed_submission example_env (seconds 10) example_world)))
       = [10000000]"
proof -
  define w where "w = before_final_sync example_env (seconds 10) example_world"
  have cw: "coarse_wait example_env (seconds 10 - FINAL_POLL_BUFFER_SECONDS) v = v"
    if "clock v = 100" for v
    using that
    by (subst coarse_wait.simps) (simp add: example_env_def FINAL_POLL_BUFFER_SECONDS_def)
  have w: "w =
       \<lparr>clock = 100, ticks = [200, 4000000, 0, 300000, 0],
        trace = [(0, Status (WithNum ''Waiting for {target_time}...'' 10000000)),
                 (0, Logging INFO (WithNum ''Target local time set for: {target_time}'' 10000000)),
                 (100, Status (Plain ''Final sync (T-25.0s)...'')),
                 (100, Logging INFO (Plain ''Reached T-25.0s. Polling server for final time sync.''))]\<rparr>"
    unfolding w_def before_final_sync_def Let_def
    apply (subst cw)
     apply (simp add: example_world_def datetime_now_def logging_def update_status_def
        tick_def emit_def Let_def)
    apply (simp add: example_world_def datetime_now_def logging_def update_status_def
        tick_def emit_def Let_def)
    done
  have h: "head_result example_env = Raises \<or> head_result example_env = Response None
           \<or> head_result example_env = Response (Some [])
           \<or> (\<exists>h. head_result example_env = Response (Some h) \<and> strptime example_env h = None)"
    by (simp add: example_env_def)
  have t2: "clock (tick w) = 300" "clock (tick (tick w)) = 4000300"
    by (simp_all add: w tick_def)
  have off: "sys_utcoff example_env = 0" by (simp add: example_env_def)
  have h3: "seconds 10 - (clock (tick (tick w)) + sys_utcoff example_env)
              \<le> sleep_max (sleep_impl example_env)"
    by (simp add: t2 sleep_max_def example_env_def)
  note t = final_sync_probe_failure [OF h w_def h3]
  have r: "head_result example_env = Raises" by (simp add: example_env_def)
  have fs: "final_sync example_env (seconds 10) w =
      (Completes,
       \<lparr>clock = 10000000, ticks = [300000, 0],
        trace = [(0, Status (WithNum ''Waiting for {target_time}...'' 10000000)),
                 (0, Logging INFO (WithNum ''Target local time set for: {target_time}'' 10000000)),
                 (100, Status (Plain ''Final sync (T-25.0s)...'')),
                 (100, Logging INFO (Plain ''Reached T-25.0s. Polling server for final time sync.'')),
                 (100, Head),
                 (300, Logging ERROR
                    (WithExn ''Final server time sync failed: {e}. Proceeding with local time.''
                       RequestException)),
                 (4000300, Sleep 5999700)]\<rparr>)"
    by (simp add: w final_sync_def final_sync_try_def requests_head_def example_env_def
        datetime_now_def logging_def checked_sleep_def time_sleep_def sleep_max_def
        tick_def emit_def Let_def)
  have e: "clock (snd (final_sync example_env (seconds 10) w)) = 10000000"
    unfolding fs by simp
  have s: "sleeps (trace (snd (timed_submission example_env (seconds 10) example_world))) = [5999700]"
    using timed_submission_completes(3) [OF fs [unfolded w_def]]
    by (simp add: sleeps_def)
  have c0: "calls SubmitPinForm (trace example_world) = []"
    by (simp add: calls_def example_world_def)
  from t r s show ?thesis
    unfolding Let_def e c0 w_def [symmetric] using w by simp
qed

text \<open>
  Claim C3 as stated fails when the request gets no answer at all: \<^verbatim>\<open>requests.head\<close>
  is called without a \<^verbatim>\<open>timeout\<close>, so the thread stays in the request, and the PIN
  form is never submitted.
\<close>

theorem final_sync_no_reply_counterexample:
  "head_result example_env_silent = NoReply
   \<and> fst (timed_submission example_env_silent (seconds 10) example_world) = Blocks
   \<and> calls SubmitPinForm (trace (snd (timed_submission example_env_silent (seconds 10) example_world)))
       = []
   \<and> calls SubmitPinForm (trace (run_registration example_env_silent (Some (seconds 10)) example_world))
       = []"
proof -
  have h: "head_result example_env_silent = NoReply"
    by (simp add: example_env_silent_def)
  have ts: "timed_submission example_env_silent t w0 =
              (Blocks, emit Head (before_final_sync example_env_silent t w0))" for t w0
    by (simp add: timed_submission_no_reply [OF h])
  have c: "calls SubmitPinForm (trace (snd (timed_submission example_env_silent t w0)))
             = calls SubmitPinForm (trace w0)" for t w0
    by (simp add: ts calls_emit calls_before_final_sync)
  have e: "driver_result example_env_silent = DriverReady" "step_ok example_env_silent s" for s
    by (simp_all add: example_env_silent_def example_env_def)
  have r: "calls SubmitPinForm
             (trace (run_registration example_env_silent (Some (seconds 10)) example_world)) = []"
    by (simp add: run_registration_def registration_body_def create_driver_def e ts Let_def
        call_def update_status_def logging_def calls_emit calls_tick calls_before_final_sync)
       (simp add: calls_def example_world_def)
  from h ts [of "seconds 10" example_world] c [of "seconds 10" example_world] r
  show ?thesis by (simp add: calls_def example_world_def)
qed


section \<open>The run with the target 65 seconds ahead\<close>

lemma tick_exact: "ticks v = [] \<Longrightarrow> tick v = v"
  by (simp add: tick_def)

lemma coarse_iteration_exact:
  assumes "ticks v = []"
  shows "coarse_iteration e tmb v =
     (let remaining = tmb - (clock v + sys_utcoff e) in
      if remaining > seconds 30 then
        v\<lparr>clock := clock v + seconds 30,
          trace := trace v @ [(clock v, Status (WithNum ''Waiting... (T-{remaining:.0f}s)'' remaining)),
                              (clock v, Sleep (seconds 30))]\<rparr>
      else if remaining > seconds 5 then
        v\<lparr>clock := clock v + seconds 5,
          trace := trace v @ [(clock v, Status (WithNum ''Waiting... (T-{remaining:.0f}s)'' remaining)),
                              (clock v, Sleep (seconds 5))]\<rparr>
      else v\<lparr>clock := clock v + 500000, trace := trace v @ [(clock v, Sleep 500000)]\<rparr>)"
  using assms
  by (simp add: coarse_iteration_def Let_def time_sleep_def datetime_now_def update_status_def
      tick_exact emit_eq)

lemma coarse_wait_exact_40:
  assumes "ticks v = []" "tmb = clock v + sys_utcoff e + seconds 40"
  shows "coarse_wait e tmb v =
     v\<lparr>clock := clock v + seconds 40,
       trace := trace v @
         [(clock v, Status (WithNum ''Waiting... (T-{remaining:.0f}s)'' (seconds 40))),
          (clock v, Sleep (seconds 30)),
          (clock v + seconds 30, Status (WithNum ''Waiting... (T-{remaining:.0f}s)'' (seconds 10))),
          (clock v + seconds 30, Sleep (seconds 5))] @
         map (\<lambda>k. (clock v + seconds 35 + k * 500000, Sleep 500000)) [0, 1, 2, 3, 4, 5, 6, 7, 8, 9]\<rparr>"
  using assms
  by (simp add: coarse_wait.simps coarse_iteration_exact Let_def)

lemma final_sync_exact:
  assumes "ticks v = []"
    and "head_result e = Response (Some date_header)" "date_header \<noteq> []"
      "strptime e date_header = Some server_time"
    and "0 < target_time - ny_utcoff e - server_time"
    and "target_time - ny_utcoff e - server_time \<le> sleep_max (sleep_impl e)"
    and "DATETIME_MIN \<le> target_time - ny_utcoff e - (server_time - clock v)"
      "target_time - ny_utcoff e - (server_time - clock v) \<le> DATETIME_MAX"
  shows "final_sync e target_time v =
    (Completes,
     v\<lparr>clock := clock v + (target_time - ny_utcoff e - server_time),
       trace := trace v @
        [(clock v, Head),
         (clock v, Logging INFO (WithNum ''Server time offset: {offset_seconds:.3f} seconds.''
              (server_time - clock v))),
         (clock v, Logging INFO (WithNum ''Calculated final sleep: {remaining_sleep_seconds:.4f} seconds.''
              (target_time - ny_utcoff e - server_time))),
         (clock v, Status (WithNum ''Final sleep: {remaining_sleep_seconds:.3f}s''
              (target_time - ny_utcoff e - server_time))),
         (clock v, Sleep (target_time - ny_utcoff e - server_time))]\<rparr>)"
  unfolding final_sync_def final_sync_try_date [OF assms(2,3,4)] Let_def
  using assms(1,5,6,7,8)
  by (simp add: checked_sleep_def logging_def update_status_def
      time_sleep_def tick_exact emit_eq)

lemma sleeps_Cons_simps:
  "sleeps [] = []"
  "sleeps ((t, Sleep d) # tr) = d # sleeps tr"
  "sleeps ((t, Status m) # tr) = sleeps tr"
  "sleeps ((t, Logging l m) # tr) = sleeps tr"
  "sleeps ((t, Head) # tr) = sleeps tr"
  "sleeps ((t, Call s) # tr) = sleeps tr"
  by (simp_all add: sleeps_def)

lemma calls_Cons_simps:
  "calls s [] = []"
  "calls s ((t, Sleep d) # tr) = calls s tr"
  "calls s ((t, Status m) # tr) = calls s tr"
  "calls s ((t, Logging l m) # tr) = calls s tr"
  "calls s ((t, Head) # tr) = calls s tr"
  "calls s ((t, Call s') # tr) = (if s' = s then t # calls s tr else calls s tr)"
  by (simp_all add: calls_def)

lemma scenario_trace:
  assumes exact: "ticks w = []"
    and zone: "sys_utcoff e = ny_utcoff e"
    and target: "target_time = clock w + sys_utcoff e + seconds 65"
    and date: "head_result e = Response (Some date_header)" "date_header \<noteq> []"
      "strptime e date_header = Some server_time"
    and pos: "0 < clock w + seconds 65 - server_time"
      "clock w + seconds 65 - server_time \<le> sleep_max (sleep_impl e)"
    and range: "DATETIME_MIN \<le> 2 * clock w + seconds 105 - server_time"
      "2 * clock w + seconds 105 - server_time \<le> DATETIME_MAX"
  shows "timed_submission e target_time w = (Completes, snd (timed_submission e target_time w))
     \<and> trace (snd (timed_submission e target_time w)) =
      trace w @
      [(clock w, Status (WithNum ''Waiting for {target_time}...'' target_time)),
       (clock w, Logging INFO (WithNum ''Target local time set for: {target_time}'' target_time)),
       (clock w, Status (WithNum ''Waiting... (T-{remaining:.0f}s)'' (seconds 40))),
       (clock w, Sleep (seconds 30)),
       (clock w + seconds 30, Status (WithNum ''Waiting... (T-{remaining:.0f}s)'' (seconds 10))),
       (clock w + seconds 30, Sleep (seconds 5))] @
      map (\<lambda>k. (clock w + seconds 35 + k * 500000, Sleep 500000)) [0, 1, 2, 3, 4, 5, 6, 7, 8, 9] @
      [(clock w + seconds 40, Status (Plain ''Final sync (T-25.0s)...'')),
       (clock w + seconds 40, Logging INFO (Plain ''Reached T-25.0s. Polling server for final time sync.'')),
       (clock w + seconds 40, Head),
       (clock w + seconds 40, Logging INFO (WithNum ''Server time offset: {offset_seconds:.3f} seconds.''
            (server_time - (clock w + seconds 40)))),
       (clock w + seconds 40, Logging INFO (WithNum ''Calculated final sleep: {remaining_sleep_seconds:.4f} seconds.''
            (clock w + seconds 65 - server_time))),
       (clock w + seconds 40, Status (WithNum ''Final sleep: {remaining_sleep_seconds:.3f}s''
            (clock w + seconds 65 - server_time))),
       (clock w + seconds 40, Sleep (clock w + seconds 65 - server_time)),
       (2 * clock w + seconds 105 - server_time, Status (Plain ''Submitting PIN...'')),
       (2 * clock w + seconds 105 - server_time, Call SubmitPinForm),
       (2 * clock w + seconds 105 - server_time, Call LogSubmissionTimes)]"
proof -
  define w2 where "w2 =
    logging INFO (WithNum ''Target local time set for: {target_time}'' target_time)
      (update_status (WithNum ''Waiting for {target_time}...'' target_time) w)"
  have w2: "ticks w2 = []" "clock w2 = clock w"
    "trace w2 = trace w @
      [(clock w, Status (WithNum ''Waiting for {target_time}...'' target_time)),
       (clock w, Logging INFO (WithNum ''Target local time set for: {target_time}'' target_time))]"
    by (simp_all add: w2_def logging_def update_status_def emit_eq exact)
  have w3: "snd (datetime_now e w2) = w2"
    by (simp add: datetime_now_def Let_def tick_exact w2)
  have tmb: "target_time - FINAL_POLL_BUFFER_SECONDS = clock w2 + sys_utcoff e + seconds 40"
    by (simp add: target FINAL_POLL_BUFFER_SECONDS_def w2)
  define w4 where "w4 = coarse_wait e (target_time - FINAL_POLL_BUFFER_SECONDS) w2"
  have w4: "ticks w4 = []" "clock w4 = clock w + seconds 40"
    "trace w4 = trace w2 @
         [(clock w, Status (WithNum ''Waiting... (T-{remaining:.0f}s)'' (seconds 40))),
          (clock w, Sleep (seconds 30)),
          (clock w + seconds 30, Status (WithNum ''Waiting... (T-{remaining:.0f}s)'' (seconds 10))),
          (clock w + seconds 30, Sleep (seconds 5))] @
         map (\<lambda>k. (clock w + seconds 35 + k * 500000, Sleep 500000)) [0, 1, 2, 3, 4, 5, 6, 7, 8, 9]"
    unfolding w4_def coarse_wait_exact_40 [OF w2(1) tmb] by (simp_all add: w2)
  define w6 where "w6 = before_final_sync e target_time w"
  have w6_eq: "w6 =
    logging INFO (Plain ''Reached T-25.0s. Polling server for final time sync.'')
      (update_status (Plain ''Final sync (T-25.0s)...'') w4)"
    by (simp add: w6_def before_final_sync_def Let_def w2_def [symmetric] w3 w4_def [symmetric])
  have w6: "ticks w6 = []" "clock w6 = clock w + seconds 40"
    "trace w6 = trace w4 @
      [(clock w + seconds 40, Status (Plain ''Final sync (T-25.0s)...'')),
       (clock w + seconds 40, Logging INFO (Plain ''Reached T-25.0s. Polling server for final time sync.''))]"
    by (simp_all add: w6_eq logging_def update_status_def emit_eq w4)
  have pos': "0 < target_time - ny_utcoff e - server_time"
    "target_time - ny_utcoff e - server_time \<le> sleep_max (sleep_impl e)"
    using pos by (simp_all add: target zone)
  have range': "DATETIME_MIN \<le> target_time - ny_utcoff e - (server_time - clock w6)"
      "target_time - ny_utcoff e - (server_time - clock w6) \<le> DATETIME_MAX"
    using range by (simp_all add: target zone w6)
  note fse = final_sync_exact [OF w6(1) date pos' range']
  define w7 where "w7 = snd (final_sync e target_time w6)"
  have fs7: "final_sync e target_time w6 = (Completes, w7)"
    unfolding w7_def fse by simp
  have w7: "ticks w7 = []" "clock w7 = 2 * clock w + seconds 105 - server_time"
    "trace w7 = trace w6 @
       [(clock w + seconds 40, Head),
       (clock w + seconds 40, Logging INFO (WithNum ''Server time offset: {offset_seconds:.3f} seconds.''
            (server_time - (clock w + seconds 40)))),
       (clock w + seconds 40, Logging INFO (WithNum ''Calculated final sleep: {remaining_sleep_seconds:.4f} seconds.''
            (clock w + seconds 65 - server_time))),
       (clock w + seconds 40, Status (WithNum ''Final sleep: {remaining_sleep_seconds:.3f}s''
            (clock w + seconds 65 - server_time))),
       (clock w + seconds 40, Sleep (clock w + seconds 65 - server_time))]"
    unfolding w7_def fse
    by (simp_all add: w6 target zone)
  have ts: "timed_submission e target_time w =
      (Completes,
       call LogSubmissionTimes (call SubmitPinForm (update_status (Plain ''Submitting PIN...'') w7)))"
    by (simp add: timed_submission_def w6_def [symmetric] fs7 Let_def)
  have "trace (snd (timed_submission e target_time w)) = trace w7 @
      [(clock w7, Status (Plain ''Submitting PIN...'')),
       (clock w7, Call SubmitPinForm),
       (clock w7, Call LogSubmissionTimes)]"
    unfolding ts by (simp add: call_def update_status_def emit_eq tick_eq w7(1) next_tick_Nil)
  then have "trace (snd (timed_submission e target_time w)) = trace w @
      [(clock w, Status (WithNum ''Waiting for {target_time}...'' target_time)),
       (clock w, Logging INFO (WithNum ''Target local time set for: {target_time}'' target_time)),
       (clock w, Status (WithNum ''Waiting... (T-{remaining:.0f}s)'' (seconds 40))),
       (clock w, Sleep (seconds 30)),
       (clock w + seconds 30, Status (WithNum ''Waiting... (T-{remaining:.0f}s)'' (seconds 10))),
       (clock w + seconds 30, Sleep (seconds 5))] @
      map (\<lambda>k. (clock w + seconds 35 + k * 500000, Sleep 500000)) [0, 1, 2, 3, 4, 5, 6, 7, 8, 9] @
      [(clock w + seconds 40, Status (Plain ''Final sync (T-25.0s)...'')),
       (clock w + seconds 40, Logging INFO (Plain ''Reached T-25.0s. Polling server for final time sync.'')),
       (clock w + seconds 40, Head),
       (clock w + seconds 40, Logging INFO (WithNum ''Server time offset: {offset_seconds:.3f} seconds.''
            (server_time - (clock w + seconds 40)))),
       (clock w + seconds 40, Logging INFO (WithNum ''Calculated final sleep: {remaining_sleep_seconds:.4f} seconds.''
            (clock w + seconds 65 - server_time))),
       (clock w + seconds 40, Status (WithNum ''Final sleep: {remaining_sleep_seconds:.3f}s''
            (clock w + seconds 65 - server_time))),
       (clock w + seconds 40, Sleep (clock w + seconds 65 - server_time)),
       (2 * clock w + seconds 105 - server_time, Status (Plain ''Submitting PIN...'')),
       (2 * clock w + seconds 105 - server_time, Call SubmitPinForm),
       (2 * clock w + seconds 105 - server_time, Call LogSubmissionTimes)]"
    by (simp add: w7 w6 w4 w2)
  moreover have "timed_submission e target_time w
                   = (Completes, snd (timed_submission e target_time w))"
    unfolding ts by simp
  ultimately show ?thesis by blast
qed

lemma replicate_10: "replicate 10 x = [x, x, x, x, x, x, x, x, x, x]"
  by (simp add: numeral_eq_Suc)

text \<open>
  Claim C6, as the code has it.  Let the target be 65 seconds after the reading with which
  the coarse wait starts, on a machine in the target's time zone where every operation
  takes exactly as long as it asks for, at a clock that is a datetime and stays one for
  the next 90 seconds, and let the server's \<^verbatim>\<open>Date\<close> header parse to a time within
  \<open>tolerance\<close> (less than 25 seconds) of the local clock.  Then the coarse wait sleeps
  30 seconds, then 5 seconds, then ten times half a second; the request of the final
  synchronisation goes out 40 seconds after the start, which is 25 seconds before the
  target; one more sleep follows, computed from the server's time; and the branch runs to
  its end with the PIN form submitted once, within \<open>tolerance\<close> of the target.
\<close>

theorem scenario_65_seconds:
  assumes exact: "ticks w = []"
    and zone: "sys_utcoff e = ny_utcoff e"
    and target: "target_time = clock w + sys_utcoff e + seconds 65"
    and date: "head_result e = Response (Some date_header)" "date_header \<noteq> []"
      "strptime e date_header = Some server_time"
    and sync: "abs (server_time - (clock w + seconds 40)) \<le> tolerance" "tolerance < seconds 25"
    and valid: "DATETIME_MIN \<le> clock w" "clock w + seconds 90 \<le> DATETIME_MAX"
  shows "fst (timed_submission e target_time w) = Completes
         \<and> sleeps (trace (snd (timed_submission e target_time w))) =
           sleeps (trace w) @ [seconds 30, seconds 5] @ replicate 10 500000
             @ [clock w + seconds 65 - server_time]
         \<and> (clock w + seconds 40, Head) \<in> set (trace (snd (timed_submission e target_time w)))
         \<and> (\<exists>fired. calls SubmitPinForm (trace (snd (timed_submission e target_time w)))
                        = calls SubmitPinForm (trace w) @ [fired]
                    \<and> abs (fired - (clock w + seconds 65)) \<le> tolerance)"
proof -
  have pos: "0 < clock w + seconds 65 - server_time"
    "clock w + seconds 65 - server_time \<le> sleep_max (sleep_impl e)"
    using sync sleep_max_least [of "sleep_impl e"] by simp_all
  have range: "DATETIME_MIN \<le> 2 * clock w + seconds 105 - server_time"
      "2 * clock w + seconds 105 - server_time \<le> DATETIME_MAX"
    using sync valid by simp_all
  from scenario_trace [OF exact zone target date pos range]
  have co: "timed_submission e target_time w = (Completes, snd (timed_submission e target_time w))"
    and tr: "trace (snd (timed_submission e target_time w)) =
      trace w @
      [(clock w, Status (WithNum ''Waiting for {target_time}...'' target_time)),
       (clock w, Logging INFO (WithNum ''Target local time set for: {target_time}'' target_time)),
       (clock w, Status (WithNum ''Waiting... (T-{remaining:.0f}s)'' (seconds 40))),
       (clock w, Sleep (seconds 30)),
       (clock w + seconds 30, Status (WithNum ''Waiting... (T-{remaining:.0f}s)'' (seconds 10))),
       (clock w + seconds 30, Sleep (seconds 5))] @
      map (\<lambda>k. (clock w + seconds 35 + k * 500000, Sleep 500000)) [0, 1, 2, 3, 4, 5, 6, 7, 8, 9] @
      [(clock w + seconds 40, Status (Plain ''Final sync (T-25.0s)...'')),
       (clock w + seconds 40, Logging INFO (Plain ''Reached T-25.0s. Polling server for final time sync.'')),
       (clock w + seconds 40, Head),
       (clock w + seconds 40, Logging INFO (WithNum ''Server time offset: {offset_seconds:.3f} seconds.''
            (server_time - (clock w + seconds 40)))),
       (clock w + seconds 40, Logging INFO (WithNum ''Calculated final sleep: {remaining_sleep_seconds:.4f} seconds.''
            (clock w + seconds 65 - server_time))),
       (clock w + seconds 40, Status (WithNum ''Final sleep: {remaining_sleep_seconds:.3f}s''
            (clock w + seconds 65 - server_time))),
       (clock w + seconds 40, Sleep (clock w + seconds 65 - server_time)),
       (2 * clock w + seconds 105 - server_time, Status (Plain ''Submitting PIN...'')),
       (2 * clock w + seconds 105 - server_time, Call SubmitPinForm),
       (2 * clock w + seconds 105 - server_time, Call LogSubmissionTimes)]"
    by blast+
  have f: "fst (timed_submission e target_time w) = Completes"
    using co by (metis fst_conv)
  have a: "abs ((2 * clock w + seconds 105 - server_time) - (clock w + seconds 65)) \<le> tolerance"
    using sync by simp
  have s: "sleeps (trace (snd (timed_submission e target_time w))) =
           sleeps (trace w) @ [seconds 30, seconds 5] @ replicate 10 500000
             @ [clock w + seconds 65 - server_time]"
    unfolding tr by (simp add: sleeps_append sleeps_Cons_simps numeral_eq_Suc)
  have h: "(clock w + seconds 40, Head) \<in> set (trace (snd (timed_submission e target_time w)))"
    unfolding tr by simp
  have c: "calls SubmitPinForm (trace (snd (timed_submission e target_time w)))
             = calls SubmitPinForm (trace w) @ [2 * clock w + seconds 105 - server_time]"
    unfolding tr by (simp add: calls_append calls_Cons_simps)
  from f s h c a show ?thesis by blast
qed

theorem scenario_65_seconds_witness:
  "ticks scenario_world = []
   \<and> sys_utcoff example_env_dated = ny_utcoff example_env_dated
   \<and> seconds 65 = clock scenario_world + sys_utcoff example_env_dated + seconds 65
   \<and> abs (seconds 18042 - (clock scenario_world + seconds 40)) \<le> seconds 2
   \<and> DATETIME_MIN \<le> clock scenario_world
   \<and> clock scenario_world + seconds 90 \<le> DATETIME_MAX
   \<and> fst (timed_submission example_env_dated (seconds 65) scenario_world) = Completes
   \<and> sleeps (trace (snd (timed_submission example_env_dated (seconds 65) scenario_world))) =
        [30000000, 5000000, 500000, 500000, 500000, 500000, 500000, 500000, 500000, 500000,
         500000, 500000, 23000000]
   \<and> calls SubmitPinForm
        (trace (snd (timed_submission example_env_dated (seconds 65) scenario_world)))
        = [18063000000]"
proof -
  have h1: "ticks scenario_world = []" by (simp add: scenario_world_def)
  have h2: "sys_utcoff example_env_dated = ny_utcoff example_env_dated"
    by (simp add: example_env_dated_def)
  have h3: "seconds 65 = clock scenario_world + sys_utcoff example_env_dated + seconds 65"
    by (simp add: scenario_world_def example_env_dated_def)
  have h4: "head_result example_env_dated = Response (Some ''Thu, 01 Jan 1970 05:00:42 GMT'')"
    by (simp add: example_env_dated_def)
  have h5: "''Thu, 01 Jan 1970 05:00:42 GMT'' \<noteq> []" by simp
  have h6: "strptime example_env_dated ''Thu, 01 Jan 1970 05:00:42 GMT'' = Some (seconds 18042)"
    by (simp add: example_env_dated_def)
  have h7: "abs (seconds 18042 - (clock scenario_world + seconds 40)) \<le> seconds 2"
    by (simp add: scenario_world_def)
  have h8: "seconds 2 < seconds 25" by simp
  have h9: "DATETIME_MIN \<le> clock scenario_world"
    by (simp add: scenario_world_def DATETIME_MIN_def)
  have h10: "clock scenario_world + seconds 90 \<le> DATETIME_MAX"
    by (simp add: scenario_world_def DATETIME_MAX_def)
  note t = scenario_65_seconds [OF h1 h2 h3 h4 h5 h6 h7 h8 h9 h10]
  have pos: "0 < clock scenario_world + seconds 65 - seconds 18042"
    "clock scenario_world + seconds 65 - seconds 18042 \<le> sleep_max (sleep_impl example_env_dated)"
    by (simp_all add: scenario_world_def example_env_dated_def sleep_max_def)
  have range: "DATETIME_MIN \<le> 2 * clock scenario_world + seconds 105 - seconds 18042"
    "2 * clock scenario_world + seconds 105 - seconds 18042 \<le> DATETIME_MAX"
    by (simp_all add: scenario_world_def DATETIME_MIN_def DATETIME_MAX_def)
  from scenario_trace [OF h1 h2 h3 h4 h5 h6 pos range]
  have tr: "trace (snd (timed_submission example_env_dated (seconds 65) scenario_world)) =
      trace scenario_world @
      [(clock scenario_world, Status (WithNum ''Waiting for {target_time}...'' (seconds 65))),
       (clock scenario_world, Logging INFO (WithNum ''Target local time set for: {target_time}'' (seconds 65))),
       (clock scenario_world, Status (WithNum ''Waiting... (T-{remaining:.0f}s)'' (seconds 40))),
       (clock scenario_world, Sleep (seconds 30)),
       (clock scenario_world + seconds 30, Status (WithNum ''Waiting... (T-{remaining:.0f}s)'' (seconds 10))),
       (clock scenario_world + seconds 30, Sleep (seconds 5))] @
      map (\<lambda>k. (clock scenario_world + seconds 35 + k * 500000, Sleep 500000)) [0, 1, 2, 3, 4, 5, 6, 7, 8, 9] @
      [(clock scenario_world + seconds 40, Status (Plain ''Final sync (T-25.0s)...'')),
       (clock scenario_world + seconds 40, Logging INFO (Plain ''Reached T-25.0s. Polling server for final time sync.'')),
       (clock scenario_world + seconds 40, Head),
       (clock scenario_world + seconds 40, Logging INFO (WithNum ''Server time offset: {offset_seconds:.3f} seconds.''
            (seconds 18042 - (clock scenario_world + seconds 40)))),
       (clock scenario_world + seconds 40, Logging INFO (WithNum ''Calculated final sleep: {remaining_sleep_seconds:.4f} seconds.''
            (clock scenario_world + seconds 65 - seconds 18042))),
       (clock scenario_world + seconds 40, Status (WithNum ''Final sleep: {remaining_sleep_seconds:.3f}s''
            (clock scenario_world + seconds 65 - seconds 18042))),
       (clock scenario_world + seconds 40, Sleep (clock scenario_world + seconds 65 - seconds 18042)),
       (2 * clock scenario_world + seconds 105 - seconds 18042, Status (Plain ''Submitting PIN...'')),
       (2 * clock scenario_world + seconds 105 - seconds 18042, Call SubmitPinForm),
       (2 * clock scenario_world + seconds 105 - seconds 18042, Call LogSubmissionTimes)]"
    by blast
  have c: "calls SubmitPinForm
             (trace (snd (timed_submission example_env_dated (seconds 65) scenario_world)))
             = [18063000000]"
    unfolding tr
    by (simp add: calls_append calls_Cons_simps scenario_world_def)
  have tr0: "trace scenario_world = []" "clock scenario_world = seconds 18000"
    by (simp_all add: scenario_world_def)
  from t h1 h2 h3 h7 h9 h10 c show ?thesis by (simp add: tr0 sleeps_def replicate_10)
qed

text \<open>
  Claim C6 as stated fails: after the first sleep of 30 seconds only 10 seconds remain
  before the final synchronisation, so the second sleep is 5 seconds long, not 30.
\<close>

theorem scenario_65_seconds_counterexample:
  "ticks scenario_world = []
   \<and> seconds 65 = clock scenario_world + sys_utcoff example_env_dated + seconds 65
   \<and> sleeps (trace (coarse_wait example_env_dated (seconds 65 - FINAL_POLL_BUFFER_SECONDS)
                      scenario_world))
       = [30000000, 5000000, 500000, 500000, 500000, 500000, 500000, 500000, 500000, 500000,
          500000, 500000]
   \<and> sleeps (trace (coarse_wait example_env_dated (seconds 65 - FINAL_POLL_BUFFER_SECONDS)
                      scenario_world))
       \<noteq> [seconds 30, seconds 30]"
proof -
  have h1: "ticks scenario_world = []" by (simp add: scenario_world_def)
  have tmb: "seconds 65 - FINAL_POLL_BUFFER_SECONDS
               = clock scenario_world + sys_utcoff example_env_dated + seconds 40"
    by (simp add: scenario_world_def example_env_dated_def FINAL_POLL_BUFFER_SECONDS_def)
  show ?thesis
    unfolding coarse_wait_exact_40 [OF h1 tmb]
    by (simp add: scenario_world_def example_env_dated_def sleeps_def)
qed


section \<open>Properties of the start handlers\<close>

lemma validate_time_Some:
  "validate_time hour_var minute_var second_var w = (Some (hour, minute, second), w') \<longleftrightarrow>
     hour_var = Some hour \<and> minute_var = Some minute \<and> second_var = Some second
     \<and> 0 \<le> hour \<and> hour \<le> 23 \<and> 0 \<le> minute \<and> minute \<le> 59 \<and> 0 \<le> second \<and> second \<le> 59
     \<and> w' = w"
  by (auto simp: validate_time_def split: option.splits)

lemma validate_time_None:
  "fst (validate_time hour_var minute_var second_var w) = None \<Longrightarrow>
     validate_time hour_var minute_var second_var w =
       (None, emit (ShowError ''Error''
                      (Plain ''Please enter valid time values (H: 0-23, M/S: 0-59)'')) w)"
  by (auto simp: validate_time_def split: option.splits if_splits)

lemma start_at_time_valid:
  assumes "0 \<le> hour" "hour \<le> 23" "0 \<le> minute" "minute \<le> 59" "0 \<le> second" "second \<le> 59"
  shows "start_at_time e (Some hour) (Some minute) (Some second) w =
     (let w2 = tick (tick w);
          target_time = replace_time (clock (tick w) + sys_utcoff e) hour minute second
      in if target_time < clock w2 + sys_utcoff e then
           (Returned, emit (ShowError ''Error'' (Plain ''Please set a future time'')) w2)
         else (Scheduled (Some target_time),
               update_status (WithNum ''Waiting for {target_time}'' target_time) w2))"
  using assms by (simp add: start_at_time_def validate_time_def datetime_now_def Let_def)

text \<open>
  Claim C5, as the code has it.  When the time entered is valid and the target, today at
  that time, is strictly before the clock as read for the comparison, the handler
  returns without scheduling a run: it shows the error "Please set a future time" and
  nothing else happens, in particular no sleep.  A run is scheduled exactly when the time
  entered is valid and the target is not before that reading; this includes a target
  equal to it.
\<close>

theorem start_at_time_result:
  "let now1 = clock (tick w) + sys_utcoff e;
       now2 = clock (tick (tick w)) + sys_utcoff e;
       valid = (\<lambda>hour minute second.
                  hour_var = Some hour \<and> minute_var = Some minute \<and> second_var = Some second
                  \<and> 0 \<le> hour \<and> hour \<le> 23 \<and> 0 \<le> minute \<and> minute \<le> 59
                  \<and> 0 \<le> second \<and> second \<le> 59);
       (result, after) = start_at_time e hour_var minute_var second_var w
   in (\<forall>hour minute second.
         valid hour minute second \<and> replace_time now1 hour minute second < now2 \<longrightarrow>
           result = Returned
           \<and> trace after =
               trace w @ [(clock (tick (tick w)), ShowError ''Error'' (Plain ''Please set a future time''))]
           \<and> sleeps (trace after) = sleeps (trace w))
      \<and> (\<forall>target. result = Scheduled target \<longleftrightarrow>
            (\<exists>hour minute second.
               valid hour minute second
               \<and> target = Some (replace_time now1 hour minute second)
               \<and> now2 \<le> replace_time now1 hour minute second))"
proof (cases "fst (validate_time hour_var minute_var second_var w)")
  case None
  from validate_time_None [OF None] have
    r: "start_at_time e hour_var minute_var second_var w =
          (Returned, emit (ShowError ''Error''
                      (Plain ''Please enter valid time values (H: 0-23, M/S: 0-59)'')) w)"
    by (simp add: start_at_time_def)
  have nv: "\<not> (hour_var = Some hour \<and> minute_var = Some minute \<and> second_var = Some second
                  \<and> 0 \<le> hour \<and> hour \<le> 23 \<and> 0 \<le> minute \<and> minute \<le> 59
                  \<and> 0 \<le> second \<and> second \<le> 59)" for hour minute second
    using None by (auto simp: validate_time_def)
  show ?thesis unfolding Let_def r using nv by auto
next
  case (Some hms)
  obtain hour minute second where hms: "hms = (hour, minute, second)" by (cases hms) auto
  have "validate_time hour_var minute_var second_var w
          = (Some (hour, minute, second), snd (validate_time hour_var minute_var second_var w))"
    using Some hms by (metis prod.collapse)
  then have v: "hour_var = Some hour" "minute_var = Some minute" "second_var = Some second"
     "0 \<le> hour" "hour \<le> 23" "0 \<le> minute" "minute \<le> 59" "0 \<le> second" "second \<le> 59"
    by (simp_all add: validate_time_Some)
  show ?thesis
    unfolding v(1,2,3) start_at_time_valid [OF v(4-9)] Let_def
    using v(4-9)
    by (auto simp: emit_eq update_status_def sleeps_def trace_tick)
qed

theorem start_at_time_result_witness:
  "start_at_time example_env (Some 0) (Some 0) (Some 1) example_world =
     (Scheduled (Some 1000000),
      \<lparr>clock = 300, ticks = [4000000, 0, 300000, 0],
       trace = [(300, Status (WithNum ''Waiting for {target_time}'' 1000000))]\<rparr>)
   \<and> start_at_time example_env (Some 0) (Some 0) (Some 1) scenario_world =
     (Returned,
      \<lparr>clock = 18000000000, ticks = [],
       trace = [(18000000000, ShowError ''Error'' (Plain ''Please set a future time''))]\<rparr>)"
  using start_at_time_result [of example_world example_env "Some 0" "Some 0" "Some 1"]
    start_at_time_result [of scenario_world example_env "Some 0" "Some 0" "Some 1"]
  by (simp add: start_at_time_def validate_time_def datetime_now_def replace_time_def Let_def
      example_env_def example_world_def scenario_world_def tick_def update_status_def emit_def)

text \<open>
  Claim C5 as stated fails at the boundary: with the clock at 00:00:00.999990 and the time
  00:00:01 entered, the reading for the comparison is 00:00:01.000000, the target is not
  strictly ahead of it, and the run is scheduled.
\<close>

theorem start_at_time_boundary_counterexample:
  "fst (start_at_time example_env (Some 0) (Some 0) (Some 1) boundary_world)
     = Scheduled (Some 1000000)
   \<and> fst (datetime_now example_env (snd (datetime_now example_env boundary_world))) = 1000000
   \<and> \<not> (fst (datetime_now example_env (snd (datetime_now example_env boundary_world)))
          < (1000000 :: int))"
  by (simp add: start_at_time_def validate_time_def datetime_now_def replace_time_def Let_def
      example_env_def boundary_world_def tick_def update_status_def emit_def)


section \<open>Properties of the pipeline\<close>

lemma called_append: "called (xs @ ys) = called xs @ called ys"
  by (simp add: called_def)

lemma shown_append: "shown (xs @ ys) = shown xs @ shown ys"
  by (simp add: shown_def)

lemma immediate_run_ignores_pin_form:
  assumes "driver_result e = DriverReady" "step_ok e Login" "step_ok e SelectTerm"
    "step_ok e EnterPinOnly" "step_ok e EnterCrns" "step_ok e SubmitRegistration"
  shows "called (trace (run_registration e None w)) =
           called (trace w) @ [Login, SelectTerm, EnterPinOnly, SubmitPinForm, EnterCrns, SubmitRegistration]
         \<and> shown (trace (run_registration e None w)) =
           shown (trace w) @ [ShowInfo ''Success'' (Plain ''Registration completed successfully!'')]"
  using assms
  by (simp add: run_registration_def registration_body_def create_driver_def has_driver_def
      Let_def call_def update_status_def logging_def time_sleep_def tick_eq emit_eq
      called_append shown_append)
     (simp add: called_def shown_def)

lemma checked_step_fails_fast:
  assumes "driver_result e = DriverReady"
  shows "\<not> step_ok e Login \<Longrightarrow>
           called (trace (run_registration e target w)) = called (trace w) @ [Login]
           \<and> shown (trace (run_registration e target w)) = shown (trace w) @
               [ShowError ''Error'' (WithExn ''Error: {str(e)}''
                  (Exception ''Login failed. Check credentials in config.txt.''))]"
    and "step_ok e Login \<Longrightarrow> \<not> step_ok e SelectTerm \<Longrightarrow>
           called (trace (run_registration e target w)) = called (trace w) @ [Login, SelectTerm]
           \<and> shown (trace (run_registration e target w)) = shown (trace w) @
               [ShowError ''Error'' (WithExn ''Error: {str(e)}''
                  (Exception ''Term selection failed. Check TERM_ID and TERM_TEXT in config.txt.''))]"
    and "step_ok e Login \<Longrightarrow> step_ok e SelectTerm \<Longrightarrow> \<not> step_ok e EnterPinOnly \<Longrightarrow>
           called (trace (run_registration e target w)) = called (trace w) @ [Login, SelectTerm, EnterPinOnly]
           \<and> shown (trace (run_registration e target w)) = shown (trace w) @
               [ShowError ''Error'' (WithExn ''Error: {str(e)}'' (Exception ''Entering PIN failed.''))]"
    and "step_ok e Login \<Longrightarrow> step_ok e SelectTerm \<Longrightarrow> step_ok e EnterPinOnly \<Longrightarrow>
         \<not> step_ok e EnterCrns \<Longrightarrow>
           called (trace (run_registration e None w)) =
             called (trace w) @ [Login, SelectTerm, EnterPinOnly, SubmitPinForm, EnterCrns]
           \<and> shown (trace (run_registration e None w)) = shown (trace w) @
               [ShowError ''Error'' (WithExn ''Error: {str(e)}'' (Exception ''Failed to enter CRNs.''))]"
  using assms
  by (simp_all add: run_registration_def registration_body_def create_driver_def has_driver_def
      Let_def call_def update_status_def logging_def time_sleep_def tick_eq emit_eq
      called_append shown_append)
     (simp_all add: called_def shown_def)

text \<open>
  Claim C9 at a run whose only failing step is \<^verbatim>\<open>submit_pin_form\<close>: the steps after
  it are called all the same, and the one message shown reports success.
\<close>

theorem submit_pin_form_failure_ignored:
  "\<not> step_ok pin_form_failure_env SubmitPinForm
   \<and> called (trace (run_registration pin_form_failure_env None example_world)) =
       [Login, SelectTerm, EnterPinOnly, SubmitPinForm, EnterCrns, SubmitRegistration]
   \<and> shown (trace (run_registration pin_form_failure_env None example_world)) =
       [ShowInfo ''Success'' (Plain ''Registration completed successfully!'')]"
proof -
  have e: "driver_result pin_form_failure_env = DriverReady"
    "step_ok pin_form_failure_env Login" "step_ok pin_form_failure_env SelectTerm"
    "step_ok pin_form_failure_env EnterPinOnly" "step_ok pin_form_failure_env EnterCrns"
    "step_ok pin_form_failure_env SubmitRegistration"
    "\<not> step_ok pin_form_failure_env SubmitPinForm"
    by (simp_all add: pin_form_failure_env_def example_env_def)
  from immediate_run_ignores_pin_form [OF e(1-6), of example_world] e(7)
  show ?thesis by (simp add: example_world_def called_def shown_def)
qed


section \<open>Properties of the guard\<close>

lemma in_try_append: "length (filter P (ps @ [p])) = length (filter P ps) + (if P p then 1 else 0)"
  by simp

lemma filter_update_length:
  assumes "i < length ps"
  shows "length (filter P (ps[i := q])) + (if P (ps ! i) then 1 else 0)
           = length (filter P ps) + (if P q then (1::nat) else 0)"
  using assms
proof (induction ps arbitrary: i)
  case Nil
  then show ?case by simp
next
  case (Cons p ps)
  show ?case
  proof (cases i)
    case 0
    then show ?thesis by simp
  next
    case (Suc j)
    with Cons.prems have "j < length ps" by simp
    from Cons.IH [OF this] Suc show ?thesis by simp
  qed
qed

lemma in_try_leave:
  assumes "i < length (threads g)" "threads g ! i = Starting \<or> threads g ! i = InPipeline"
    "q = Cleanup \<or> q = Finished"
  shows "length (filter (\<lambda>p. p = Starting \<or> p = InPipeline) ((threads g)[i := q])) + 1 = in_try g"
  using filter_update_length [OF assms(1), of "\<lambda>p. p = Starting \<or> p = InPipeline" q] assms(2,3)
  by (auto simp: in_try_def)

lemma in_try_stay:
  assumes "i < length (threads g)" "threads g ! i = Starting"
  shows "length (filter (\<lambda>p. p = Starting \<or> p = InPipeline) ((threads g)[i := InPipeline])) = in_try g"
  using filter_update_length [OF assms(1), of "\<lambda>p. p = Starting \<or> p = InPipeline" InPipeline] assms(2)
  by (auto simp: in_try_def)

lemma in_try_wake:
  assumes "i < length (threads g)" "threads g ! i = Cleanup"
  shows "length (filter (\<lambda>p. p = Starting \<or> p = InPipeline) ((threads g)[i := Finished])) = in_try g"
  using filter_update_length [OF assms(1), of "\<lambda>p. p = Starting \<or> p = InPipeline" Finished] assms(2)
  by (auto simp: in_try_def)

lemma in_try_schedule: "in_try (schedule_registration g) = in_try g + 1"
  by (simp add: in_try_def schedule_registration_def)

lemma guarded_schedule:
  assumes "guarded g" "buttons_enabled g"
  shows "guarded (schedule_registration g)"
proof -
  from assms have z: "in_try g + after_queue g = 0" by (simp add: guarded_def)
  have "after_queue (schedule_registration g) = after_queue g"
    "\<not> buttons_enabled (schedule_registration g)"
    by (simp_all add: schedule_registration_def)
  with z in_try_schedule [of g] show ?thesis by (simp add: guarded_def)
qed

lemma guarded_perform: "guarded g \<Longrightarrow> guarded (perform a g)"
proof (cases a)
  case ClickStartNow
  assume "guarded g"
  then show ?thesis using ClickStartNow guarded_schedule [of g]
    by (simp add: perform_def)
next
  case (ClickStartAt accepted)
  assume "guarded g"
  then show ?thesis using ClickStartAt guarded_schedule [of g]
    by (simp add: perform_def)
next
  case RunCallback
  assume g: "guarded g"
  show ?thesis
  proof (cases "after_queue g > 0")
    case False
    with g RunCallback show ?thesis by (simp add: perform_def)
  next
    case True
    with g have q: "after_queue g = 1" "in_try g = 0" by (auto simp: guarded_def)
    have "in_try (perform a g) = in_try g" "after_queue (perform a g) = 0"
      using RunCallback True q by (simp_all add: perform_def in_try_def)
    with q show ?thesis by (simp add: guarded_def)
  qed
next
  case (DoCreateDriver i r)
  assume g: "guarded g"
  show ?thesis
  proof (cases "i < length (threads g) \<and> threads g ! i = Starting")
    case False
    with g DoCreateDriver show ?thesis by (auto simp: perform_def)
  next
    case True
    then have i: "i < length (threads g)" "threads g ! i = Starting" by simp_all
    have pos: "in_try g \<ge> 1"
      using in_try_leave [OF i(1), of Finished] i(2) by simp
    with g have one: "in_try g = 1" "\<not> buttons_enabled g" "after_queue g = 0"
      by (auto simp: guarded_def)
    have be: "buttons_enabled (perform a g) = buttons_enabled g"
      using DoCreateDriver by (auto simp: perform_def enter_finally_def split: driver_outcome.splits)
    show ?thesis
    proof (cases r)
      case DriverReady
      with DoCreateDriver True one in_try_stay [OF i] show ?thesis
        by (simp add: perform_def guarded_def in_try_def)
    next
      case (DriverFailed assigned)
      have "in_try (perform a g) = 0" "after_queue (perform a g) = 1"
        using DoCreateDriver True DriverFailed one in_try_leave [OF i(1), of Cleanup]
          in_try_leave [OF i(1), of Finished] i(2)
        by (auto simp: perform_def enter_finally_def in_try_def)
      with be one show ?thesis by (simp add: guarded_def)
    qed
  qed
next
  case (DoLeaveTry i)
  assume g: "guarded g"
  show ?thesis
  proof (cases "i < length (threads g) \<and> threads g ! i = InPipeline")
    case False
    with g DoLeaveTry show ?thesis by (auto simp: perform_def)
  next
    case True
    then have i: "i < length (threads g)" "threads g ! i = InPipeline" by simp_all
    have pos: "in_try g \<ge> 1"
      using in_try_leave [OF i(1), of Finished] i(2) by simp
    with g have one: "in_try g = 1" "\<not> buttons_enabled g" "after_queue g = 0"
      by (auto simp: guarded_def)
    have "in_try (perform a g) = 0" "after_queue (perform a g) = 1"
      "buttons_enabled (perform a g) = buttons_enabled g"
      using DoLeaveTry True one in_try_leave [OF i(1), of Cleanup]
        in_try_leave [OF i(1), of Finished] i(2)
      by (auto simp: perform_def enter_finally_def in_try_def)
    with one show ?thesis by (simp add: guarded_def)
  qed
next
  case (DoWake i)
  assume g: "guarded g"
  show ?thesis
  proof (cases "i < length (threads g) \<and> threads g ! i = Cleanup")
    case False
    with g DoWake show ?thesis by (auto simp: perform_def)
  next
    case True
    then have i: "i < length (threads g)" "threads g ! i = Cleanup" by simp_all
    have "in_try (perform a g) = in_try g" "buttons_enabled (perform a g) = buttons_enabled g"
      "after_queue (perform a g) = after_queue g"
      using DoWake True in_try_wake [OF i]
      by (auto simp: perform_def in_try_def split: option.splits)
    with g show ?thesis by (simp add: guarded_def)
  qed
qed

lemma guarded_run_actions: "guarded g \<Longrightarrow> guarded (run_actions acts g)"
  unfolding run_actions_def
  by (induction acts arbitrary: g) (simp_all add: guarded_perform)

lemma guarded_initial: "guarded initial_gui"
  by (simp add: guarded_def initial_gui_def in_try_def)


lemma leave_try_enables:
  "i < length (threads g) \<and> threads g ! i = InPipeline \<Longrightarrow>
     buttons_enabled (perform RunCallback (perform (DoLeaveTry i) g))"
  by (simp add: perform_def enter_finally_def)

lemma failed_driver_enables:
  "i < length (threads g) \<and> threads g ! i = Starting \<Longrightarrow>
     buttons_enabled (perform RunCallback (perform (DoCreateDriver i (DriverFailed assigned)) g))"
  by (simp add: perform_def enter_finally_def)

text \<open>
  Claim C8, as the code has it.  Whatever the user and the threads do, at most one thread
  is inside its \<^verbatim>\<open>try\<close> block; while one is, the start buttons are disabled, no
  callback is pending, and a press of either start button changes nothing.  Every way
  out of the \<^verbatim>\<open>try\<close> block (its end, an exception in it, a failure to set the
  browser up) posts the callback that enables the buttons again, before the sleep of the
  \<^verbatim>\<open>finally\<close> block.
\<close>

theorem single_run_guard:
  "let g = run_actions acts initial_gui in
     in_try g \<le> 1
     \<and> (in_try g = 1 \<longrightarrow>
          \<not> buttons_enabled g \<and> after_queue g = 0
          \<and> perform ClickStartNow g = g \<and> perform (ClickStartAt accepted) g = g
          \<and> perform RunCallback g = g)
     \<and> (\<forall>i. i < length (threads g) \<and> threads g ! i = InPipeline \<longrightarrow>
            buttons_enabled (perform RunCallback (perform (DoLeaveTry i) g)))
     \<and> (\<forall>i assigned. i < length (threads g) \<and> threads g ! i = Starting \<longrightarrow>
            buttons_enabled
              (perform RunCallback (perform (DoCreateDriver i (DriverFailed assigned)) g)))"
proof -
  define g where "g = run_actions acts initial_gui"
  have inv: "guarded g" unfolding g_def by (rule guarded_run_actions [OF guarded_initial])
  then have a: "in_try g \<le> 1" by (simp add: guarded_def)
  have b: "\<not> buttons_enabled g \<and> after_queue g = 0
          \<and> perform ClickStartNow g = g \<and> perform (ClickStartAt accepted) g = g
          \<and> perform RunCallback g = g" if "in_try g = 1"
    using inv that by (auto simp: guarded_def perform_def)
  from a b leave_try_enables [of _ g] failed_driver_enables [of _ g]
  show ?thesis unfolding Let_def g_def [symmetric] by blast
qed

lemma run_actions_simps:
  "run_actions [] g = g"
  "run_actions (a # acts) g = run_actions acts (perform a g)"
  by (simp_all add: run_actions_def)

theorem single_run_guard_witness:
  "in_try (run_actions [ClickStartNow, DoCreateDriver 0 DriverReady] initial_gui) = 1
   \<and> threads (run_actions [ClickStartNow, DoCreateDriver 0 DriverReady] initial_gui) = [InPipeline]
   \<and> \<not> buttons_enabled (run_actions [ClickStartNow, DoCreateDriver 0 DriverReady] initial_gui)
   \<and> perform ClickStartNow (run_actions [ClickStartNow, DoCreateDriver 0 DriverReady] initial_gui)
       = run_actions [ClickStartNow, DoCreateDriver 0 DriverReady] initial_gui
   \<and> buttons_enabled
       (perform RunCallback
          (perform (DoLeaveTry 0)
             (run_actions [ClickStartNow, DoCreateDriver 0 DriverReady] initial_gui)))"
proof -
  have g: "run_actions [ClickStartNow, DoCreateDriver 0 DriverReady] initial_gui =
      \<lparr>buttons_enabled = False, driver = Some 0, sessions = [0], next_session = 1,
       after_queue = 0, threads = [InPipeline]\<rparr>"
    by (simp add: run_actions_simps perform_def schedule_registration_def initial_gui_def)
  have one: "in_try (run_actions [ClickStartNow, DoCreateDriver 0 DriverReady] initial_gui) = 1"
    unfolding g by (simp add: in_try_def)
  from single_run_guard [of "[ClickStartNow, DoCreateDriver 0 DriverReady]" True] one
  show ?thesis unfolding Let_def by (simp add: g)
qed

text \<open>
  Claim C8 as stated fails while a thread is in the sleep of its \<^verbatim>\<open>finally\<close> block:
  the buttons are enabled again, a second start is accepted, and two threads are alive.
  When the first thread wakes it quits the browser session that \<^verbatim>\<open>self.driver\<close>
  names by then, which is the second run's.
\<close>

theorem second_start_during_cleanup_counterexample:
  "threads (run_actions [ClickStartNow, DoCreateDriver 0 DriverReady, DoLeaveTry 0, RunCallback,
                        ClickStartNow] initial_gui) = [Cleanup, Starting]
   \<and> alive (run_actions [ClickStartNow, DoCreateDriver 0 DriverReady, DoLeaveTry 0, RunCallback,
                        ClickStartNow] initial_gui) = 2
   \<and> run_actions [ClickStartNow, DoCreateDriver 0 DriverReady, DoLeaveTry 0, RunCallback,
                  ClickStartNow, DoCreateDriver 1 DriverReady, DoWake 0] initial_gui
       = \<lparr>buttons_enabled = False, driver = None, sessions = [0], next_session = 2,
          after_queue = 0, threads = [Finished, InPipeline]\<rparr>"
  by (simp add: run_actions_simps perform_def schedule_registration_def enter_finally_def
      initial_gui_def alive_def)

end
